theory Spec2Isabelle
  imports Main "HOL-Library.Word"
begin

section \<open>The HTTP server (internal/http/server.go)\<close>

subsection \<open>Constants\<close>

text \<open>
  A \<open>time.Duration\<close> is a signed 64-bit count of nanoseconds. The durations of this
  file are small constants, so they are kept as integers.
\<close>

type_synonym duration = int

definition Millisecond :: duration where
  "Millisecond = 1000000"

definition Second :: duration where
  "Second = 1000 * Millisecond"

definition DefaultShutdownTimeout :: duration where
  "DefaultShutdownTimeout = 5 * Second"

definition DefaultIdleTimeout :: duration where
  "DefaultIdleTimeout = 30 * Second"

definition DefaultReadHeaderTimeout :: duration where
  "DefaultReadHeaderTimeout = 30 * Second"

text \<open>\<open>humanize.MiByte\<close> is \<open>1 << 20\<close>.\<close>

definition MiByte :: int where
  "MiByte = 2 ^ 20"

definition DefaultMaxHeaderBytes :: int where
  "DefaultMaxHeaderBytes = 1 * MiByte"

subsection \<open>Errors\<close>

text \<open>
  Go's \<open>error\<close> values that the two packages create or compare against. \<open>External\<close>
  stands for an error made by code outside these files (a failed listen or close, the
  queue store, the JSON encoder, the HTTP client); \<open>Errorf\<close> is the result of
  \<open>fmt.Errorf\<close>: the formatted message and, for the verb \<open>%w\<close>, the wrapped error.
  \<open>ErrServerClosed\<close> is \<open>http.ErrServerClosed\<close> and \<open>ErrNotConnected\<close> is
  \<open>store.ErrNotConnected\<close>; \<open>Error\<close> gives the messages, those of the two sentinels
  as their packages define them.
\<close>

datatype go_error =
    ErrServerClosed
  | ErrNotConnected
  | ErrorsNew string
  | Errorf string "go_error option"
  | External string

fun Error :: "go_error \<Rightarrow> string" where
  "Error ErrServerClosed = ''http: Server closed''"
| "Error ErrNotConnected = ''not connected to target server/service''"
| "Error (ErrorsNew msg) = msg"
| "Error (Errorf msg w) = msg"
| "Error (External msg) = msg"

subsection \<open>The server\<close>

text \<open>
  The listener that \<open>newHTTPListener\<close> builds for the addresses that bound. Only what
  \<open>Init\<close> and \<open>Shutdown\<close> do with it is kept: the number of times \<open>Close\<close> was
  called on it.
\<close>

record httpListener =
  closeCalls :: nat

text \<open>
  A \<open>http.ResponseWriter\<close>: the header map, the status code once \<open>WriteHeader\<close> has
  run, and the body written so far.
\<close>

record responseWriter =
  header :: "string \<rightharpoonup> string list"
  statusCode :: "nat option"
  body :: string

definition Header_Set :: "string \<Rightarrow> string \<Rightarrow> responseWriter \<Rightarrow> responseWriter" where
  "Header_Set k v w = w\<lparr>header := (header w)(k \<mapsto> [v])\<rparr>"

text \<open>A second \<open>WriteHeader\<close> is ignored; \<open>Write\<close> sends status 200 first when none was sent.\<close>

definition WriteHeader :: "nat \<Rightarrow> responseWriter \<Rightarrow> responseWriter" where
  "WriteHeader code w = (case statusCode w of None \<Rightarrow> w\<lparr>statusCode := Some code\<rparr> | Some c \<Rightarrow> w)"

definition Write :: "string \<Rightarrow> responseWriter \<Rightarrow> responseWriter" where
  "Write b w = (let w1 = WriteHeader 200 w in w1\<lparr>body := body w1 @ b\<rparr>)"

definition StatusServiceUnavailable :: nat where
  "StatusServiceUnavailable = 503"

text \<open>
  A user handler writes to the response writer and either returns or panics. The
  counter value it is given is \<open>requestCount\<close> as it stands while the handler runs.
\<close>

datatype completion = Returned | Panicked

type_synonym 'req handler = "'req \<Rightarrow> 32 word \<Rightarrow> responseWriter \<Rightarrow> responseWriter \<times> completion"

text \<open>
  \<open>srv.Handler\<close>: the handler the user configured, or the closure \<open>wrappedHandler\<close>
  that \<open>Init\<close> builds around the value \<open>srv.Handler\<close> had when \<open>Init\<close> ran (which
  may be \<open>nil\<close>, or the closure of an earlier \<open>Init\<close>).
\<close>

datatype 'req srv_handler = UserHandler "'req handler" | WrappedHandler "'req srv_handler option"

text \<open>
  The fields of \<open>Server\<close> that the functions below read or write; the embedded
  \<open>http.Server\<close> contributes \<open>Handler\<close>, \<open>MaxHeaderBytes\<close>, \<open>IdleTimeout\<close>,
  \<open>ReadHeaderTimeout\<close> and \<open>TLSConfig\<close>. \<open>inShutdown\<close> is a \<open>uint32\<close> and
  \<open>requestCount\<close> an \<open>int32\<close>; both are updated with wrapping atomic additions.
\<close>

record 'req server =
  Addrs :: "string list"
  Handler :: "'req srv_handler option"
  MaxHeaderBytes :: int
  IdleTimeout :: duration
  ReadHeaderTimeout :: duration
  ShutdownTimeout :: duration
  TLSConfig :: "string option"
  listener :: "httpListener option"
  inShutdown :: "32 word"
  requestCount :: "32 word"

text \<open>\<open>NewServer\<close>: a zero-valued \<open>Server\<close> with \<open>Addrs\<close> and \<open>MaxHeaderBytes\<close> set.\<close>

definition NewServer :: "string list \<Rightarrow> 'req server" where
  "NewServer addrs =
     \<lparr>Addrs = addrs, Handler = None, MaxHeaderBytes = DefaultMaxHeaderBytes, IdleTimeout = 0,
      ReadHeaderTimeout = 0, ShutdownTimeout = 0, TLSConfig = None, listener = None,
      inShutdown = 0, requestCount = 0\<rparr>"

definition UseShutdownTimeout :: "duration \<Rightarrow> 'req server \<Rightarrow> 'req server" where
  "UseShutdownTimeout d srv = srv\<lparr>ShutdownTimeout := d\<rparr>"

definition UseIdleTimeout :: "duration \<Rightarrow> 'req server \<Rightarrow> 'req server" where
  "UseIdleTimeout d srv = srv\<lparr>IdleTimeout := d\<rparr>"

definition UseReadHeaderTimeout :: "duration \<Rightarrow> 'req server \<Rightarrow> 'req server" where
  "UseReadHeaderTimeout d srv = srv\<lparr>ReadHeaderTimeout := d\<rparr>"

definition UseHandler :: "'req handler \<Rightarrow> 'req server \<Rightarrow> 'req server" where
  "UseHandler h srv = srv\<lparr>Handler := Some (UserHandler h)\<rparr>"

subsection \<open>The wrapped handler\<close>

text \<open>
  The operations a call performs on the server, in the order it performs them. Each
  function below takes the server and the operations so far and returns both, extended.
\<close>

datatype srv_event =
    LoadInShutdown
  | AddRequestCount "32 word"
  | CallUserHandler "32 word"
  | AddInShutdown
  | CloseListener
  | LoadRequestCount "32 word"

definition atomic_AddRequestCount ::
  "32 word \<Rightarrow> 'req server \<times> srv_event list \<Rightarrow> 'req server \<times> srv_event list" where
  "atomic_AddRequestCount d = (\<lambda>(srv, evs).
     (srv\<lparr>requestCount := requestCount srv + d\<rparr>, evs @ [AddRequestCount d]))"

text \<open>
  \<open>ServeHTTP\<close> of a handler. The second equation is the closure \<open>wrappedHandler\<close> of
  \<open>Init\<close>: its decrement is deferred, so it also runs when the inner handler panics (a
  \<open>nil\<close> inner handler panics when called), and the panic continues to the caller.
\<close>

fun ServeHTTP ::
  "'req srv_handler \<Rightarrow> 'req server \<times> srv_event list \<Rightarrow> responseWriter \<Rightarrow> 'req \<Rightarrow>
     ('req server \<times> srv_event list) \<times> responseWriter \<times> completion" where
  "ServeHTTP (UserHandler h) (srv, evs) w r =
     (let (w', c) = h r (requestCount srv) w
      in ((srv, evs @ [CallUserHandler (requestCount srv)]), w', c))"
| "ServeHTTP (WrappedHandler inner) (srv, evs) w r =
     (if inShutdown srv \<noteq> 0 then
        ((srv, evs @ [LoadInShutdown]),
         Write (Error ErrServerClosed)
           (WriteHeader StatusServiceUnavailable (Header_Set ''Connection'' ''close'' w)),
         Returned)
      else
        let st1 = atomic_AddRequestCount 1 (srv, evs @ [LoadInShutdown]);
            (st2, w', c) = (case inner of
                              None \<Rightarrow> (st1, w, Panicked)
                            | Some g \<Rightarrow> ServeHTTP g st1 w r)
        in (atomic_AddRequestCount (- 1) st2, w', c))"

definition wrappedHandler ::
  "'req srv_handler option \<Rightarrow> 'req server \<Rightarrow> responseWriter \<Rightarrow> 'req \<Rightarrow>
     ('req server \<times> srv_event list) \<times> responseWriter \<times> completion" where
  "wrappedHandler handler srv w r = ServeHTTP (WrappedHandler handler) (srv, []) w r"

subsection \<open>Init\<close>

text \<open>
  The loop of \<open>Init\<close> over \<open>listenErrs\<close>: the calls of \<open>listenErrCallback\<close> in order,
  and \<open>interfaceFound\<close>. Reading \<open>srv.Addrs[i]\<close> past the end of \<open>Addrs\<close> panics:
  the result is then \<open>None\<close>.
\<close>

fun reportListenErrs ::
  "string list \<Rightarrow> go_error option list \<Rightarrow> nat \<Rightarrow> (string \<times> go_error) list \<Rightarrow> bool \<Rightarrow>
     (string \<times> go_error) list \<times> bool option" where
  "reportListenErrs addrs [] i cbs found = (cbs, Some found)"
| "reportListenErrs addrs (None # es) i cbs found = reportListenErrs addrs es (Suc i) cbs True"
| "reportListenErrs addrs (Some e # es) i cbs found =
     (if i < length addrs then reportListenErrs addrs es (Suc i) (cbs @ [(addrs ! i, e)]) found
      else (cbs, None))"

text \<open>
  What \<open>Init\<close> returns: it panics, or returns \<open>(serve, err)\<close>. The closure \<open>serve\<close> is
  kept as the listener it will serve on and whether that listener is wrapped for TLS.
\<close>

record serveFn =
  serveOn :: "httpListener option"
  withTLS :: bool

datatype init_result = InitPanics | InitReturns "serveFn option" "go_error option"

text \<open>
  \<open>newHTTPListener\<close> is not part of this file. Its result, the listener and one error
  slot for each address (\<open>nil\<close> where the address bound), is the first argument.
\<close>

definition Server_Init ::
  "httpListener option \<times> go_error option list \<Rightarrow> 'req server \<Rightarrow>
     init_result \<times> 'req server \<times> (string \<times> go_error) list" where
  "Server_Init nl srv =
     (let tlsConfig = TLSConfig srv;
          handler = Handler srv;
          (lst, listenErrs) = nl
      in case reportListenErrs (Addrs srv) listenErrs 0 [] False of
           (cbs, None) \<Rightarrow> (InitPanics, srv, cbs)
         | (cbs, Some interfaceFound) \<Rightarrow>
             if \<not> interfaceFound then
               (InitReturns None (Some (ErrorsNew ''no available interface found'')), srv, cbs)
             else
               (InitReturns (Some \<lparr>serveOn = lst, withTLS = (tlsConfig \<noteq> None)\<rparr>) None,
                srv\<lparr>Handler := Some (WrappedHandler handler), listener := lst\<rparr>, cbs))"

subsection \<open>Shutdown\<close>

text \<open>
  What the surroundings decide during one call of \<open>Shutdown\<close>: the result of
  \<open>srv.listener.Close()\<close>; the values of \<open>requestCount\<close> loaded each time the poll
  timer fires before the shutdown timer does (finitely many, since the shutdown timer
  fires after \<open>ShutdownTimeout\<close> and the poll interval is at least a millisecond); the
  value loaded when the shutdown timer fires; and the name of the temporary file, if
  \<open>os.CreateTemp\<close> succeeds.
\<close>

record shutdown_env =
  closeResult :: "go_error option"
  pollCounts :: "32 word list"
  deadlineCount :: "32 word"
  tmpName :: "string option"

text \<open>The polling loop; \<open>requestCount\<close> is an \<open>int32\<close>, compared as a signed value.\<close>

fun pollLoop ::
  "32 word list \<Rightarrow> 32 word \<Rightarrow> string option \<Rightarrow> srv_event list \<Rightarrow> go_error option \<times> srv_event list" where
  "pollLoop [] final tmp evs =
     (if sint final \<le> 0 then (None, evs @ [LoadRequestCount final])
      else case tmp of
             Some name \<Rightarrow>
               (Some (ErrorsNew (''timed out. some connections are still active. goroutines written to '' @ name)),
                evs @ [LoadRequestCount final])
           | None \<Rightarrow>
               (Some (ErrorsNew ''timed out. some connections are still active''),
                evs @ [LoadRequestCount final]))"
| "pollLoop (c # cs) final tmp evs =
     (if sint c \<le> 0 then (None, evs @ [LoadRequestCount c])
      else pollLoop cs final tmp (evs @ [LoadRequestCount c]))"

text \<open>\<open>atomic.AddUint32(&srv.inShutdown, 1) > 1\<close> is an unsigned comparison of the new value.\<close>

definition Shutdown ::
  "shutdown_env \<Rightarrow> 'req server \<Rightarrow> go_error option \<times> 'req server \<times> srv_event list" where
  "Shutdown env srv =
     (case listener srv of
        None \<Rightarrow> (Some ErrServerClosed, srv, [])
      | Some l \<Rightarrow>
          (let srv1 = srv\<lparr>inShutdown := inShutdown srv + 1\<rparr> in
           if inShutdown srv1 > 1 then (Some ErrServerClosed, srv1, [AddInShutdown])
           else
             (let srv2 = srv1\<lparr>listener := Some (l\<lparr>closeCalls := closeCalls l + 1\<rparr>)\<rparr> in
              (case closeResult env of
                 Some err \<Rightarrow> (Some err, srv2, [AddInShutdown, CloseListener])
               | None \<Rightarrow>
                   (let (res, evs) = pollLoop (pollCounts env) (deadlineCount env) (tmpName env)
                                       [AddInShutdown, CloseListener]
                    in (res, srv2, evs))))))"

text \<open>Calling \<open>Shutdown\<close> once for each environment of a list, in order.\<close>

fun Shutdown_calls :: "shutdown_env list \<Rightarrow> 'req server \<Rightarrow> go_error option list \<times> 'req server" where
  "Shutdown_calls [] srv = ([], srv)"
| "Shutdown_calls (env # envs) srv =
     (let (res, srv1, evs) = Shutdown env srv;
          (ress, srv2) = Shutdown_calls envs srv1
      in (res # ress, srv2))"

section \<open>The HTTP logger target (internal/logger/target/http/http.go)\<close>

subsection \<open>Constants, configuration and surroundings\<close>

definition webhookCallTimeout :: duration where
  "webhookCallTimeout = 5 * Second"

definition maxWorkers :: int where
  "maxWorkers = 16"

datatype status = statusOffline | statusOnline | statusClosed

text \<open>The fields of \<open>Config\<close> that the functions below read.\<close>

record config =
  Name :: string
  Endpoint :: string
  QueueSize :: int
  QueueDir :: string

text \<open>
  Functions of other packages, taken as parameters: \<open>xnet.IsNetworkOrHostDown\<close>,
  \<open>os.IsNotExist\<close> and \<open>json.Marshal\<close> (\<open>Inl\<close> is its error).
\<close>

record 'e ext =
  IsNetworkOrHostDown :: "go_error \<Rightarrow> bool \<Rightarrow> bool"
  IsNotExist :: "go_error \<Rightarrow> bool"
  Marshal :: "'e \<Rightarrow> go_error + string"

text \<open>
  What one HTTP exchange does: building the request fails, \<open>client.Do\<close> fails, or a
  response arrives with a status code and a status line.
\<close>

datatype http_result =
    NewRequestFails go_error
  | DoFails go_error
  | Response nat string

text \<open>
  A time is an integer count of nanoseconds from the zero \<open>time.Time\<close>.
  \<open>time.Since\<close> saturates at the bounds of \<open>time.Duration\<close>.
\<close>

definition Since :: "int \<Rightarrow> int \<Rightarrow> duration" where
  "Since now t =
     (let d = now - t
      in if d > 2 ^ 63 - 1 then 2 ^ 63 - 1 else if d < - (2 ^ 63) then - (2 ^ 63) else d)"

subsection \<open>The channel\<close>

text \<open>
  A channel: its capacity (zero for an unbuffered channel), the buffered values in order
  of arrival, the values of the goroutines parked in a blocking send, in order of
  arrival, and the number of goroutines parked in a receive.
\<close>

record 'e chan =
  capacity :: nat
  buf :: "'e list"
  sendq :: "'e list"
  recvq :: nat

text \<open>
  Where a send can put its value at once: with a receiver that waits (the value is
  handed over and the receiver resumes), or in the buffer when it has room. Otherwise
  \<open>select { case ch <- e: ...; default: ... }\<close> takes its default branch and \<open>ch <- e\<close>
  parks the sender.
\<close>

datatype 'e offer = ToReceiver "'e chan" | ToBuffer "'e chan" | NoRoom

definition chan_offer :: "'e \<Rightarrow> 'e chan \<Rightarrow> 'e offer" where
  "chan_offer e c =
     (if 0 < recvq c then ToReceiver (c\<lparr>recvq := recvq c - 1\<rparr>)
      else if length (buf c) < capacity c then ToBuffer (c\<lparr>buf := buf c @ [e]\<rparr>)
      else NoRoom)"

text \<open>
  A receive by a goroutine that is not parked. With a sender parked, the receiver takes
  that sender's value when nothing is buffered (the unbuffered channel), else the oldest
  buffered value while the sender's value enters the buffer; the sender resumes, which
  the flag reports. With no sender parked it takes the oldest buffered value.
  \<open>None\<close>: there is nothing to receive.
\<close>

definition chan_recv :: "'e chan \<Rightarrow> ('e \<times> 'e chan \<times> bool) option" where
  "chan_recv c =
     (case sendq c of
        s # ss \<Rightarrow>
          (case buf c of
             [] \<Rightarrow> Some (s, c\<lparr>sendq := ss\<rparr>, True)
           | x # xs \<Rightarrow> Some (x, c\<lparr>buf := xs @ [s], sendq := ss\<rparr>, True))
      | [] \<Rightarrow>
          (case buf c of
             [] \<Rightarrow> None
           | x # xs \<Rightarrow> Some (x, c\<lparr>buf := xs\<rparr>, False)))"

subsection \<open>The target\<close>

text \<open>The calls made on the queue store, an interface of another package.\<close>

datatype 'e store_call = StorePut 'e | StoreGet string | StoreDel string

text \<open>
  A goroutine blocked in \<open>h.workerStartMu.Lock()\<close>: a \<open>Send\<close> with its entry and the
  value of \<open>workers\<close> it loaded before, or \<open>initLogChannel\<close> (or the revive goroutine)
  after its compare-and-swap set the status to online.
\<close>

datatype 'e mu_waiter = WaitingSend 'e "64 word" | WaitingInit

text \<open>A \<open>Send\<close> holds the read lock of \<open>logChMu\<close> while it waits; \<open>initLogChannel\<close> does not.\<close>

fun holdsReadLock :: "'e mu_waiter \<Rightarrow> bool" where
  "holdsReadLock (WaitingSend entry nWorkers) = True"
| "holdsReadLock WaitingInit = False"

text \<open>
  The fields of \<open>Target\<close>. The counters are \<open>int64\<close> values updated by wrapping
  atomic additions. \<open>logCh\<close> is \<open>None\<close> when the field is \<open>nil\<close>. \<open>store\<close> is \<open>None\<close>
  when the field is \<open>nil\<close>, and otherwise the calls made on the store so far.
  \<open>workerStartMu\<close> says that the mutex is held, and \<open>muWaiters\<close> lists the goroutines
  blocked on it. \<open>reviveDone\<close> is the state of the \<open>sync.Once\<close> named \<open>revive\<close>,
  \<open>reviveRunning\<close> says that the goroutine it started has not left its loop,
  \<open>initQueueStoreDone\<close> is the state of \<open>initQueueStoreOnce\<close>, and \<open>storeCancelled\<close>
  says that \<open>storeCtxCancel\<close> was called.

  Of the worker goroutines, \<open>loggers\<close> counts those running \<open>startHTTPLogger\<close>,
  \<open>registered\<close> those among them that have passed \<open>h.wg.Add(1)\<close> and range over the
  channel, and \<open>inHand\<close> holds the entries that were handed over to workers parked in a
  receive and are not delivered yet.
\<close>

record 'e target =
  totalMessages :: "64 word"
  failedMessages :: "64 word"
  status :: status
  workers :: "64 word"
  workerStartMu :: bool
  muWaiters :: "'e mu_waiter list"
  lastStarted :: int
  logCh :: "'e chan option"
  reviveDone :: bool
  reviveRunning :: bool
  store :: "'e store_call list option"
  storeCancelled :: bool
  initQueueStoreDone :: bool
  config :: config
  loggers :: nat
  registered :: nat
  inHand :: "'e list"

text \<open>The operations of a worker that the surroundings can see.\<close>

datatype tgt_event = Sleep duration | Post string | LogOnce go_error string

record TargetStats =
  TotalMessages :: "64 word"
  FailedMessages :: "64 word"
  QueueLength :: nat

definition Stats :: "'e target \<Rightarrow> TargetStats" where
  "Stats h =
     \<lparr>TotalMessages = totalMessages h, FailedMessages = failedMessages h,
      QueueLength = (case logCh h of None \<Rightarrow> 0 | Some c \<Rightarrow> length (buf c))\<rparr>"

text \<open>
  \<open>make(chan interface{}, size)\<close> panics with "makechan: size out of range" when the
  size is negative or the buffer would exceed \<open>maxAlloc - hchanSize\<close> bytes. The values
  are those of the Go runtime on 64-bit Linux for the releases of 2023: an interface
  value takes 16 bytes, \<open>maxAlloc\<close> is \<open>1 << 48\<close> and the channel header takes 96 bytes.
  A size within the limit whose memory the machine cannot provide ends the process; the
  model is that of the runs in which the memory is there.
\<close>

definition maxAlloc :: int where
  "maxAlloc = 2 ^ 48"

definition hchanSize :: int where
  "hchanSize = 96"

definition makechan_panics :: "int \<Rightarrow> bool" where
  "makechan_panics n \<longleftrightarrow> n < 0 \<or> 16 * n > maxAlloc - hchanSize"

text \<open>
  \<open>New\<close>; the result is \<open>None\<close> when \<open>make\<close> panics. The proxy and the transport are
  not part of the model.
\<close>

definition New :: "config \<Rightarrow> 'e target option" where
  "New cfg =
     (if makechan_panics (QueueSize cfg) then None
      else Some
        \<lparr>totalMessages = 0, failedMessages = 0, status = statusOffline, workers = 0,
         workerStartMu = False, muWaiters = [], lastStarted = 0,
         logCh = Some \<lparr>capacity = nat (QueueSize cfg), buf = [], sendq = [], recvq = 0\<rparr>,
         reviveDone = False, reviveRunning = False, store = None, storeCancelled = False,
         initQueueStoreDone = False, config = cfg, loggers = 0, registered = 0, inHand = []\<rparr>)"

subsection \<open>The HTTP sender\<close>

definition quoted :: "string \<Rightarrow> string" where
  "quoted s = [CHR 0x27] @ s @ [CHR 0x27]"

text \<open>\<open>send\<close>: the error it returns for each course of the exchange (\<open>None\<close> is \<open>nil\<close>).\<close>

definition send :: "config \<Rightarrow> http_result \<Rightarrow> go_error option" where
  "send cfg r =
     (case r of
        NewRequestFails err \<Rightarrow>
          Some (Errorf (''invalid configuration for '' @ quoted (Endpoint cfg) @ ''; '' @ Error err) None)
      | DoFails err \<Rightarrow>
          Some (Errorf (Endpoint cfg @ '' returned '' @ quoted (Error err) @
                        '', please check your endpoint configuration'') (Some err))
      | Response code st \<Rightarrow>
          if code = 200 \<or> code = 201 \<or> code = 202 \<or> code = 204 then None
          else if code = 403 then
            Some (Errorf (Endpoint cfg @ '' returned '' @ quoted st @
                          '', please check if your auth token is correctly set'') None)
          else
            Some (Errorf (Endpoint cfg @ '' returned '' @ quoted st @
                          '', please check your endpoint configuration'') None))"

definition checkAlive :: "config \<Rightarrow> http_result \<Rightarrow> go_error option" where
  "checkAlive cfg probe = send cfg probe"

definition IsOnline :: "'e ext \<Rightarrow> config \<Rightarrow> http_result \<Rightarrow> bool" where
  "IsOnline x cfg probe =
     (case checkAlive cfg probe of
        Some err \<Rightarrow> \<not> IsNetworkOrHostDown x err False
      | None \<Rightarrow> True)"

subsection \<open>Init\<close>

text \<open>
  What the surroundings decide during one call on the target: the course of the probe
  \<open>checkAlive\<close> sends, the value of \<open>time.Now()\<close>, and the results of \<open>store.Put\<close> and
  of opening the queue store.
\<close>

record tgt_env =
  probe :: http_result
  now :: int
  putResult :: "go_error option"
  openResult :: "go_error option"

text \<open>
  With \<open>workerStartMu\<close> taken and released again: \<open>h.lastStarted = time.Now()\<close>, then
  \<open>atomic.AddInt64(&h.workers, 1)\<close> and \<open>go h.startHTTPLogger(ctx)\<close>.
\<close>

definition startWorker :: "int \<Rightarrow> 'e target \<Rightarrow> 'e target" where
  "startWorker t h = h\<lparr>lastStarted := t, workers := workers h + 1, loggers := loggers h + 1\<rparr>"

text \<open>
  What follows a successful compare-and-swap of \<open>status\<close> from offline to online. While
  a parked \<open>Send\<close> holds \<open>workerStartMu\<close> the caller blocks in \<open>Lock\<close>; \<open>True\<close> says so.
\<close>

definition goOnline :: "int \<Rightarrow> 'e target \<Rightarrow> bool \<times> 'e target" where
  "goOnline t h =
     (let h1 = h\<lparr>status := statusOnline\<rparr>
      in if workerStartMu h1 then (True, h1\<lparr>muWaiters := muWaiters h1 @ [WaitingInit]\<rparr>)
         else (False, startWorker t h1))"

text \<open>A call of \<open>Init\<close> returns, or blocks on \<open>workerStartMu\<close>.\<close>

datatype tgt_init_outcome = TargetInitReturns "go_error option" | TargetInitBlocked

text \<open>
  \<open>initLogChannel\<close>. Both compare-and-swap operations on \<open>status\<close> run where
  \<open>status\<close> was just read as offline, so they succeed.
\<close>

definition initLogChannel ::
  "'e ext \<Rightarrow> tgt_env \<Rightarrow> 'e target \<Rightarrow> tgt_init_outcome \<times> 'e target" where
  "initLogChannel x env h =
     (case status h of
        statusOnline \<Rightarrow> (TargetInitReturns None, h)
      | statusClosed \<Rightarrow> (TargetInitReturns (Some (ErrorsNew ''target is closed'')), h)
      | statusOffline \<Rightarrow>
          if \<not> IsOnline x (config h) (probe env) then
            (TargetInitReturns None,
             if reviveDone h then h else h\<lparr>reviveDone := True, reviveRunning := True\<rparr>)
          else
            (let (blocked, h1) = goOnline (now env) h
             in (if blocked then TargetInitBlocked else TargetInitReturns None, h1)))"

text \<open>
  One tick of the goroutine that \<open>revive\<close> started. After a successful compare-and-swap
  the goroutine starts the worker and returns; it ticks no more.
\<close>

definition reviveTick :: "'e ext \<Rightarrow> tgt_env \<Rightarrow> 'e target \<Rightarrow> 'e target" where
  "reviveTick x env h =
     (if \<not> reviveRunning h then h
      else if status h \<noteq> statusOffline then h\<lparr>reviveRunning := False\<rparr>
      else if IsOnline x (config h) (probe env) then
        (snd (goOnline (now env) h))\<lparr>reviveRunning := False\<rparr>
      else h)"

text \<open>
  Modelled from the spec: \<open>once.Init\<close> of the package \<open>internal/once\<close>, which is not in
  this file. "Init is wrapped in a once-guard: at most one successful initialization
  per target lifetime": the function runs unless an earlier run succeeded.
\<close>

definition DoWithContext ::
  "('e target \<Rightarrow> go_error option \<times> 'e target) \<Rightarrow> 'e target \<Rightarrow> go_error option \<times> 'e target" where
  "DoWithContext f h =
     (if initQueueStoreDone h then (None, h)
      else case f h of
             (None, h1) \<Rightarrow> (None, h1\<lparr>initQueueStoreDone := True\<rparr>)
           | (Some err, h1) \<Rightarrow> (Some err, h1))"

definition initQueueStore :: "tgt_env \<Rightarrow> 'e target \<Rightarrow> go_error option \<times> 'e target" where
  "initQueueStore env h =
     (case openResult env of
        Some err \<Rightarrow>
          (Some (Errorf (''unable to initialize the queue store of minio-http-'' @ Name (config h) @
                         '' webhook: '' @ Error err) (Some err)), h)
      | None \<Rightarrow> (None, h\<lparr>store := Some [], storeCancelled := False\<rparr>))"

definition Target_Init ::
  "'e ext \<Rightarrow> tgt_env \<Rightarrow> 'e target \<Rightarrow> tgt_init_outcome \<times> 'e target" where
  "Target_Init x env h =
     (if QueueDir (config h) \<noteq> [] then
        (let (err, h1) = DoWithContext (initQueueStore env) h in (TargetInitReturns err, h1))
      else initLogChannel x env h)"

subsection \<open>The workers\<close>

text \<open>
  What the surroundings decide while one entry is delivered: the course of the
  \<open>n\<close>-th call of \<open>send\<close>, and the value that \<open>atomic.LoadInt32(&h.status)\<close> returns in
  the check made after \<open>n\<close> attempts (\<open>Cancel\<close> runs on another goroutine, so the value
  can change between two checks).
\<close>

record log_env =
  posts :: "nat \<Rightarrow> http_result"
  loadStatus :: "nat \<Rightarrow> status"

text \<open>
  The pause before the next attempt. \<open>math.Pow(float64(tries+2), 2)\<close> is exact for
  these small integers.
\<close>

definition retrySleep :: "nat \<Rightarrow> duration" where
  "retrySleep tries =
     (let sleep = (int tries + 2) ^ 2 * Millisecond
      in if sleep > Second then Second else sleep)"

text \<open>The loop of \<open>logEntry\<close>, from the value \<open>tries\<close> has at the top of an iteration.\<close>

function logEntry_loop ::
  "log_env \<Rightarrow> string \<Rightarrow> nat \<Rightarrow> 'e target \<times> tgt_event list \<Rightarrow> 'e target \<times> tgt_event list" where
  "logEntry_loop lenv logJSON tries (h, evs) =
     (if tries > 0 \<and> (tries \<ge> 10 \<or> loadStatus lenv tries = statusClosed) then (h, evs)
      else
        (let evs1 = (if tries > 0 then evs @ [Sleep (retrySleep tries)] else evs);
             tries1 = tries + 1
         in case send (config h) (posts lenv tries1) of
              Some err \<Rightarrow>
                logEntry_loop lenv logJSON tries1
                  (h\<lparr>failedMessages := failedMessages h + 1\<rparr>,
                   evs1 @ [Post logJSON, LogOnce err (Endpoint (config h))])
            | None \<Rightarrow> (h, evs1 @ [Post logJSON])))"
  by pat_completeness auto
termination
  by (relation "measure (\<lambda>(lenv, logJSON, tries, st). 10 - tries)") auto

declare logEntry_loop.simps [simp del]

definition logEntry ::
  "'e ext \<Rightarrow> log_env \<Rightarrow> 'e \<Rightarrow> 'e target \<Rightarrow> 'e target \<times> tgt_event list" where
  "logEntry x lenv entry h =
     (case Marshal x entry of
        Inl err \<Rightarrow> (h\<lparr>failedMessages := failedMessages h + 1\<rparr>, [])
      | Inr logJSON \<Rightarrow> logEntry_loop lenv logJSON 0 (h, []))"

text \<open>
  The prologue of \<open>startHTTPLogger\<close>, run by a worker that was started and has not
  run it yet. Its \<open>RLock\<close> waits while \<open>Cancel\<close> waits for the write lock (the status is
  closed and the channel not yet \<open>nil\<close>). With \<open>logCh\<close> \<open>nil\<close> the worker returns and
  takes one off \<open>workers\<close>; otherwise it passes \<open>h.wg.Add(1)\<close> and goes on to receive.
\<close>

definition loggerStart :: "'e target \<Rightarrow> 'e target" where
  "loggerStart h =
     (if loggers h \<le> registered h then h
      else if status h = statusClosed \<and> logCh h \<noteq> None then h
      else case logCh h of
             None \<Rightarrow> h\<lparr>workers := workers h - 1, loggers := loggers h - 1\<rparr>
           | Some c \<Rightarrow> h\<lparr>registered := registered h + 1\<rparr>)"

text \<open>
  A worker that is at the receive of \<open>for entry := range logCh\<close>, neither parked nor
  holding an entry, finds nothing to receive and parks.
\<close>

definition loggerPark :: "'e target \<Rightarrow> 'e target" where
  "loggerPark h =
     (case logCh h of
        None \<Rightarrow> h
      | Some c \<Rightarrow>
          if recvq c + length (inHand h) < registered h \<and> buf c = [] \<and> sendq c = []
          then h\<lparr>logCh := Some (c\<lparr>recvq := recvq c + 1\<rparr>)\<rparr>
          else h)"

text \<open>The body of the loop for one entry.\<close>

definition deliver ::
  "'e ext \<Rightarrow> log_env \<Rightarrow> 'e \<Rightarrow> 'e target \<Rightarrow> 'e target \<times> tgt_event list" where
  "deliver x lenv entry h = logEntry x lenv entry (h\<lparr>totalMessages := totalMessages h + 1\<rparr>)"

text \<open>
  One iteration of \<open>for entry := range logCh\<close> for a channel that is still open: a
  worker delivers the entry it was handed, or else a worker that is not parked receives
  an entry and delivers it. A parked \<open>Send\<close> whose value the receive took returns
  \<open>nil\<close>, and its deferred \<open>Unlock\<close> releases \<open>workerStartMu\<close>. With nothing in hand and
  nothing to receive, or every worker parked, nothing happens.
\<close>

definition loggerStep ::
  "'e ext \<Rightarrow> log_env \<Rightarrow> 'e target \<Rightarrow> 'e target \<times> tgt_event list" where
  "loggerStep x lenv h =
     (case inHand h of
        e # es \<Rightarrow> deliver x lenv e (h\<lparr>inHand := es\<rparr>)
      | [] \<Rightarrow>
          (case logCh h of
             None \<Rightarrow> (h, [])
           | Some c \<Rightarrow>
               if registered h \<le> recvq c then (h, [])
               else
                 (case chan_recv c of
                    None \<Rightarrow> (h, [])
                  | Some (entry, c1, released) \<Rightarrow>
                      deliver x lenv entry
                        (h\<lparr>logCh := Some c1,
                           workerStartMu := (if released then False else workerStartMu h)\<rparr>))))"

subsection \<open>SendFromStore\<close>

record 'e store_env =
  getResult :: "go_error + 'e"
  post :: http_result
  delResult :: "go_error option"

text \<open>
  \<open>SendFromStore\<close>. With a \<open>nil\<close> store the call of \<open>h.store.Get\<close> panics: the result
  is then \<open>None\<close>.
\<close>

definition SendFromStore ::
  "'e ext \<Rightarrow> 'e store_env \<Rightarrow> string \<Rightarrow> 'e target \<Rightarrow> (go_error option \<times> 'e target) option" where
  "SendFromStore x env key h =
     (case store h of
        None \<Rightarrow> None
      | Some calls \<Rightarrow>
          (let h0 = h\<lparr>store := Some (calls @ [StoreGet key])\<rparr> in
           case getResult env of
             Inl err \<Rightarrow> if IsNotExist x err then Some (None, h0) else Some (Some err, h0)
           | Inr eventData \<Rightarrow>
               (let h1 = h0\<lparr>totalMessages := totalMessages h0 + 1\<rparr> in
                case Marshal x eventData of
                  Inl err \<Rightarrow> Some (Some err, h1\<lparr>failedMessages := failedMessages h1 + 1\<rparr>)
                | Inr logJSON \<Rightarrow>
                    (case send (config h1) (post env) of
                       Some err \<Rightarrow>
                         (let h2 = h1\<lparr>failedMessages := failedMessages h1 + 1\<rparr> in
                          if IsNetworkOrHostDown x err True then Some (Some ErrNotConnected, h2)
                          else Some (Some err, h2))
                     | None \<Rightarrow>
                         Some (delResult env,
                               h1\<lparr>store := Some (calls @ [StoreGet key, StoreDel key])\<rparr>)))))"

subsection \<open>Send\<close>

text \<open>
  A call of \<open>Send\<close> returns an error or \<open>nil\<close>; or it is parked in the blocking
  \<open>h.logCh <- entry\<close>, holding \<open>workerStartMu\<close> and the read lock of \<open>logChMu\<close>, until
  a worker receives from the channel (it then returns \<open>nil\<close>); or it is blocked in
  \<open>h.workerStartMu.Lock()\<close> while a parked \<open>Send\<close> holds the mutex.
\<close>

datatype send_outcome = SendReturns "go_error option" | SendParked | SendBlockedOnMutex

definition dropEntry :: "string \<Rightarrow> 'e target \<Rightarrow> send_outcome \<times> 'e target" where
  "dropEntry msg h =
     (SendReturns (Some (ErrorsNew msg)),
      h\<lparr>totalMessages := totalMessages h + 1, failedMessages := failedMessages h + 1\<rparr>)"

text \<open>
  \<open>Send\<close> from the point where it holds \<open>workerStartMu\<close>, with the value of \<open>workers\<close>
  it loaded before taking the mutex: the start of one more worker when the last start is
  more than a second ago and the compare-and-swap finds the loaded value, then the
  blocking send. A call that returns releases the mutex on its way out; a call that
  parks keeps it. A send on a \<open>nil\<close> channel blocks for ever.
\<close>

definition sendLocked :: "tgt_env \<Rightarrow> 'e \<Rightarrow> 64 word \<Rightarrow> 'e target \<Rightarrow> send_outcome \<times> 'e target" where
  "sendLocked env entry nWorkers h =
     (let h1 = (if Since (now env) (lastStarted h) > Second then
                  (if workers h = nWorkers then
                     h\<lparr>workers := nWorkers + 1, lastStarted := now env, loggers := loggers h + 1\<rparr>
                   else h)
                else h)
      in case logCh h1 of
           None \<Rightarrow> (SendParked, h1\<lparr>workerStartMu := True\<rparr>)
         | Some c \<Rightarrow>
             (case chan_offer entry c of
                ToReceiver c1 \<Rightarrow>
                  (SendReturns None, h1\<lparr>logCh := Some c1, inHand := inHand h1 @ [entry]\<rparr>)
              | ToBuffer c1 \<Rightarrow> (SendReturns None, h1\<lparr>logCh := Some c1\<rparr>)
              | NoRoom \<Rightarrow>
                  (SendParked,
                   h1\<lparr>logCh := Some (c\<lparr>sendq := sendq c @ [entry]\<rparr>), workerStartMu := True\<rparr>)))"

text \<open>\<open>Send\<close>.\<close>

definition Send :: "'e ext \<Rightarrow> tgt_env \<Rightarrow> 'e \<Rightarrow> 'e target \<Rightarrow> send_outcome \<times> 'e target" where
  "Send x env entry h =
     (case store h of
        Some calls \<Rightarrow> (SendReturns (putResult env), h\<lparr>store := Some (calls @ [StorePut entry])\<rparr>)
      | None \<Rightarrow>
          if status h = statusClosed then (SendReturns None, h)
          else
            (case logCh h of
               None \<Rightarrow> (SendReturns None, h)
             | Some c \<Rightarrow>
                 (case chan_offer entry c of
                    ToReceiver c1 \<Rightarrow>
                      (SendReturns None, h\<lparr>logCh := Some c1, inHand := inHand h @ [entry]\<rparr>)
                  | ToBuffer c1 \<Rightarrow> (SendReturns None, h\<lparr>logCh := Some c1\<rparr>)
                  | NoRoom \<Rightarrow>
                      if \<not> IsOnline x (config h) (probe env) then
                        dropEntry ''log buffer full and remote offline'' h
                      else
                        (let nWorkers = workers h in
                         if sint nWorkers < maxWorkers then
                           (if workerStartMu h then
                              (SendBlockedOnMutex,
                               h\<lparr>muWaiters := muWaiters h @ [WaitingSend entry nWorkers]\<rparr>)
                            else sendLocked env entry nWorkers h)
                         else
                           dropEntry ''log buffer full, remote endpoint is not able to keep up'' h))))"

text \<open>
  The first goroutine blocked on \<open>workerStartMu\<close> gets the mutex once it is free, and
  goes on from there; \<open>time.Now()\<close> is read then.
\<close>

definition muAcquire :: "tgt_env \<Rightarrow> 'e target \<Rightarrow> 'e target" where
  "muAcquire env h =
     (if workerStartMu h then h
      else case muWaiters h of
             [] \<Rightarrow> h
           | WaitingInit # ws \<Rightarrow> startWorker (now env) (h\<lparr>muWaiters := ws\<rparr>)
           | WaitingSend entry nWorkers # ws \<Rightarrow>
               snd (sendLocked env entry nWorkers (h\<lparr>muWaiters := ws\<rparr>)))"

subsection \<open>Cancel\<close>

text \<open>
  \<open>Cancel\<close> returns, panics (\<open>close\<close> of a \<open>nil\<close> channel, on a second call), or waits
  for the write lock of \<open>logChMu\<close> while a \<open>Send\<close> that is parked or blocked on
  \<open>workerStartMu\<close> holds the read lock.
\<close>

datatype cancel_outcome = CancelReturns | CancelPanics | CancelBlocked

text \<open>
  The registered workers delivering what they hold and what is left in the closed
  channel, before \<open>h.wg.Wait()\<close> returns: each entry counts in \<open>totalMessages\<close> and
  goes through \<open>logEntry\<close>, which by now reads \<open>status\<close> as closed.
\<close>

fun drainAll ::
  "'e ext \<Rightarrow> (nat \<Rightarrow> nat \<Rightarrow> http_result) \<Rightarrow> nat \<Rightarrow> 'e list \<Rightarrow> 'e target \<times> tgt_event list \<Rightarrow>
     'e target \<times> tgt_event list" where
  "drainAll x ps i [] st = st"
| "drainAll x ps i (e # es) (h, evs) =
     (let (h1, evs1) = deliver x \<lparr>posts = ps i, loadStatus = (\<lambda>n. statusClosed)\<rparr> e h
      in drainAll x ps (Suc i) es (h1, evs @ evs1))"

text \<open>
  The read lock of \<open>logChMu\<close> is held by every \<open>Send\<close> that is parked in the channel
  or blocked on \<open>workerStartMu\<close>.
\<close>

definition readLockHeld :: "'e target \<Rightarrow> bool" where
  "readLockHeld h \<longleftrightarrow>
     list_ex holdsReadLock (muWaiters h) \<or> (case logCh h of None \<Rightarrow> False | Some c \<Rightarrow> sendq c \<noteq> [])"

text \<open>
  \<open>Cancel\<close> from \<open>h.logChMu.Lock()\<close> on. Once no \<open>Send\<close> holds the read lock it closes
  the channel and sets \<open>logCh\<close> to \<open>nil\<close>. \<open>h.wg.Wait()\<close> then waits for the registered
  workers only: they deliver what is left, return and take themselves off \<open>workers\<close>.
  With no registered worker what is left in the channel is lost, and a worker that was
  started but has not run its prologue is still there when \<open>Cancel\<close> returns. The
  second argument gives the course of the \<open>n\<close>-th call of \<open>send\<close> for the \<open>i\<close>-th entry
  left.
\<close>

definition closeAndWait ::
  "'e ext \<Rightarrow> (nat \<Rightarrow> nat \<Rightarrow> http_result) \<Rightarrow> 'e target \<Rightarrow>
     cancel_outcome \<times> 'e target \<times> tgt_event list" where
  "closeAndWait x ps h =
     (if readLockHeld h then (CancelBlocked, h, [])
      else case logCh h of
             None \<Rightarrow> (CancelPanics, h, [])
           | Some c \<Rightarrow>
               if registered h = 0 then (CancelReturns, h\<lparr>logCh := None\<rparr>, [])
               else
                 (let (h3, evs) =
                        drainAll x ps 0 (inHand h @ buf c) (h\<lparr>logCh := None, inHand := []\<rparr>, [])
                  in (CancelReturns,
                      h3\<lparr>workers := workers h3 - of_nat (registered h3),
                         loggers := loggers h3 - registered h3, registered := 0\<rparr>,
                      evs)))"

text \<open>\<open>Cancel\<close>. A call that was blocked goes on with \<open>closeAndWait\<close>.\<close>

definition Cancel ::
  "'e ext \<Rightarrow> (nat \<Rightarrow> nat \<Rightarrow> http_result) \<Rightarrow> 'e target \<Rightarrow> cancel_outcome \<times> 'e target \<times> tgt_event list" where
  "Cancel x ps h =
     (let h1 = h\<lparr>status := statusClosed\<rparr>;
          h2 = (if store h1 \<noteq> None then h1\<lparr>storeCancelled := True\<rparr> else h1)
      in closeAndWait x ps h2)"

subsection \<open>Sequences of steps\<close>

text \<open>
  The steps that can follow each other on one target: a call of \<open>Send\<close>, a call of
  \<open>Init\<close>, a tick of the revive goroutine, a worker handling one entry, a started worker
  running its prologue, a worker parking in the receive, and a goroutine blocked on
  \<open>workerStartMu\<close> getting the mutex.
\<close>

datatype 'e action =
    ActSend 'e tgt_env
  | ActInit tgt_env
  | ActRevive tgt_env
  | ActLogger log_env
  | ActLoggerStart
  | ActLoggerPark
  | ActAcquire tgt_env

fun step :: "'e ext \<Rightarrow> 'e target \<Rightarrow> 'e action \<Rightarrow> 'e target" where
  "step x h (ActSend entry env) = snd (Send x env entry h)"
| "step x h (ActInit env) = snd (Target_Init x env h)"
| "step x h (ActRevive env) = reviveTick x env h"
| "step x h (ActLogger lenv) = fst (loggerStep x lenv h)"
| "step x h ActLoggerStart = loggerStart h"
| "step x h ActLoggerPark = loggerPark h"
| "step x h (ActAcquire env) = muAcquire env h"

definition run :: "'e ext \<Rightarrow> 'e action list \<Rightarrow> 'e target \<Rightarrow> 'e target" where
  "run x acts h = foldl (step x) h acts"

subsection \<open>The specification's account of one delivery attempt\<close>

text \<open>
  What the specification says a worker does for the attempt that follows \<open>k\<close> completed
  attempts: "sleep \<open>min((tries+2)^2, 1000)\<close> ms between attempts", then the POST, and
  "\<open>LogOnce\<close> the error on each failure". It is compared with \<open>logEntry\<close> below.
\<close>

definition spec_attempt :: "config \<Rightarrow> log_env \<Rightarrow> string \<Rightarrow> nat \<Rightarrow> tgt_event list" where
  "spec_attempt cfg lenv logJSON k =
     (if k > 0 then [Sleep (min ((int k + 2) ^ 2) 1000 * Millisecond)] else []) @
     [Post logJSON] @
     (case send cfg (posts lenv (Suc k)) of
        Some err \<Rightarrow> [LogOnce err (Endpoint cfg)]
      | None \<Rightarrow> [])"

subsection \<open>Example inputs\<close>

text \<open>
  A server whose single address bound, and surroundings in which closing the listener
  succeeds and no request is in flight when the shutdown timer fires.
\<close>

definition server0 :: "unit server" where
  "server0 = fst (snd (Server_Init (Some \<lparr>closeCalls = 0\<rparr>, [None]) (NewServer [''127.0.0.1:9000''])))"

definition shutdown0 :: shutdown_env where
  "shutdown0 = \<lparr>closeResult = None, pollCounts = [], deadlineCount = 0, tmpName = None\<rparr>"

text \<open>
  For targets whose entries are numbers: an error counts as network or host down when
  it wraps a failure of \<open>client.Do\<close>, no error is a not-exist error, and every entry
  encodes.
\<close>

definition ext0 :: "nat ext" where
  "ext0 =
     \<lparr>IsNetworkOrHostDown = (\<lambda>err t. case err of Errorf m (Some w) \<Rightarrow> True | _ \<Rightarrow> False),
      IsNotExist = (\<lambda>err. False),
      Marshal = (\<lambda>n. Inr ''{}'')\<rparr>"

text \<open>
  A target with a channel of capacity one, one with a queue directory, and one as
  \<open>lookupLegacyConfigForSubSys\<close> configures it: only the endpoint is set, so the
  queue size is zero and the channel unbuffered.
\<close>

definition cfg_chan :: config where
  "cfg_chan = \<lparr>Name = ''t'', Endpoint = ''http://fixture/ok'', QueueSize = 1, QueueDir = []\<rparr>"

definition cfg_store :: config where
  "cfg_store = \<lparr>Name = ''t'', Endpoint = ''http://fixture/ok'', QueueSize = 1, QueueDir = ''/tmp/q''\<rparr>"

definition cfg_legacy :: config where
  "cfg_legacy = \<lparr>Name = [], Endpoint = ''http://fixture/ok'', QueueSize = 0, QueueDir = []\<rparr>"

text \<open>The remote answers 200 at time \<open>t\<close>; the remote refuses the connection at time \<open>t\<close>.\<close>

definition online :: "int \<Rightarrow> tgt_env" where
  "online t = \<lparr>probe = Response 200 ''200 OK'', now = t, putResult = None, openResult = None\<rparr>"

definition offline :: "int \<Rightarrow> tgt_env" where
  "offline t =
     \<lparr>probe = DoFails (External ''connection refused''), now = t, putResult = None,
      openResult = None\<rparr>"

text \<open>A worker whose first POST is answered with 200.\<close>

definition delivered :: log_env where
  "delivered = \<lparr>posts = (\<lambda>n. Response 200 ''200 OK''), loadStatus = (\<lambda>n. statusOffline)\<rparr>"

text \<open>
  One producer and a reachable remote, before \<open>Init\<close> has run. Entry 0 fills the
  channel. Then, every two seconds, \<open>Send\<close> finds the channel full, starts a worker and
  parks; the new worker runs its prologue; and a worker receives the oldest entry, which
  lets the parked entry into the channel and \<open>Send\<close> return.
\<close>

definition round :: "nat \<Rightarrow> nat action list" where
  "round k = [ActSend k (online (2000000000 * int k)), ActLoggerStart, ActLogger delivered]"

definition ramp_up :: "nat action list" where
  "ramp_up = ActSend 0 (online 0) # concat (map round [1..<17])"

text \<open>
  A target that went online, five seconds after the start of the clock: its worker ran
  its prologue and parked in the receive; entry 2 was handed over to it, and entry 3
  went into the channel while the worker is still delivering entry 2.
\<close>

definition busy :: "nat action list" where
  "busy =
     [ActInit (online 5000000000), ActLoggerStart, ActLoggerPark,
      ActSend 2 (online 5000000000), ActSend 3 (online 5000000000)]"

text \<open>
  A remote that answers the first two POSTs of an entry with 403 and the third with 200,
  while the target stays online.
\<close>

definition flaky :: log_env where
  "flaky =
     \<lparr>posts = (\<lambda>n. if n < 3 then Response 403 ''403 Forbidden'' else Response 200 ''200 OK''),
      loadStatus = (\<lambda>n. statusOnline)\<rparr>"

text \<open>Every POST of every entry left in the channel is answered with 200.\<close>

definition accepting :: "nat \<Rightarrow> nat \<Rightarrow> http_result" where
  "accepting i n = Response 200 ''200 OK''"

text \<open>
  Surroundings of \<open>SendFromStore\<close> in which the store returns entry 7 and accepts the
  deletion, for a given course of the POST.
\<close>

definition replay :: "http_result \<Rightarrow> nat store_env" where
  "replay r = \<lparr>getResult = Inr 7, post = r, delResult = None\<rparr>"

text \<open>The target with a queue directory, after \<open>Init\<close> opened its store.\<close>

definition stored :: "nat target" where
  "stored = snd (Target_Init ext0 (online 1) (the (New cfg_store)))"

section \<open>Properties of the server\<close>

subsection \<open>NewServer\<close>

text \<open>
  C9, as the code has it. \<open>NewServer\<close> sets the maximum header size to 1 MiB and leaves
  the idle, read-header and shutdown timeouts at zero. The documented defaults (30 s,
  30 s and 5 s) are the values of the constants, which reach the server only through the
  setters \<open>UseIdleTimeout\<close>, \<open>UseReadHeaderTimeout\<close> and \<open>UseShutdownTimeout\<close>.
\<close>

theorem NewServer_fields:
  "MaxHeaderBytes (NewServer addrs) = 1048576 \<and>
   IdleTimeout (NewServer addrs) = 0 \<and>
   ReadHeaderTimeout (NewServer addrs) = 0 \<and>
   ShutdownTimeout (NewServer addrs) = 0 \<and>
   IdleTimeout (UseIdleTimeout DefaultIdleTimeout (NewServer addrs)) = 30 * 1000000000 \<and>
   ReadHeaderTimeout (UseReadHeaderTimeout DefaultReadHeaderTimeout (NewServer addrs)) = 30 * 1000000000 \<and>
   ShutdownTimeout (UseShutdownTimeout DefaultShutdownTimeout (NewServer addrs)) = 5 * 1000000000"
  by (simp add: NewServer_def UseIdleTimeout_def UseReadHeaderTimeout_def UseShutdownTimeout_def
      DefaultMaxHeaderBytes_def MiByte_def DefaultIdleTimeout_def DefaultReadHeaderTimeout_def
      DefaultShutdownTimeout_def Second_def Millisecond_def)

text \<open>
  C9 as stated fails: a server fresh from \<open>NewServer\<close> does not have all four
  documented defaults.
\<close>

theorem NewServer_defaults_counterexample:
  "\<not> (MaxHeaderBytes (NewServer [''127.0.0.1:9000''] :: unit server) = 1048576 \<and>
      IdleTimeout (NewServer [''127.0.0.1:9000''] :: unit server) = 30 * Second \<and>
      ReadHeaderTimeout (NewServer [''127.0.0.1:9000''] :: unit server) = 30 * Second \<and>
      ShutdownTimeout (NewServer [''127.0.0.1:9000''] :: unit server) = 5 * Second)"
  by (simp add: NewServer_def Second_def Millisecond_def)

subsection \<open>The wrapped handler\<close>

text \<open>Serving a request leaves the server as it was, whatever the handler is and does.\<close>

lemma ServeHTTP_server:
  "fst (fst (ServeHTTP g (srv, evs) w r)) = srv"
proof (induction g arbitrary: srv evs w)
  case (UserHandler h)
  show ?case by (simp add: split_beta)
next
  case (WrappedHandler inner)
  show ?case
  proof (cases inner)
    case None
    then show ?thesis by (simp add: atomic_AddRequestCount_def)
  next
    case (Some g)
    have ih: "\<And>s e. fst (fst (ServeHTTP g (s, e) w r)) = s"
      using WrappedHandler Some by simp
    obtain s2 e2 w2 c2 where run:
      "ServeHTTP g (srv\<lparr>requestCount := requestCount srv + 1\<rparr>, evs @ [LoadInShutdown, AddRequestCount 1]) w r
         = ((s2, e2), w2, c2)"
      by (metis prod.exhaust)
    have "s2 = srv\<lparr>requestCount := requestCount srv + 1\<rparr>"
      using ih [of "srv\<lparr>requestCount := requestCount srv + 1\<rparr>" "evs @ [LoadInShutdown, AddRequestCount 1]"] run
      by simp
    with Some run show ?thesis
      by (simp add: atomic_AddRequestCount_def)
  qed
qed

text \<open>
  C5. While the server is in shutdown the wrapped handler only loads the flag, leaves the
  server (so \<open>requestCount\<close>) as it was, and answers on a fresh response writer with
  status 503, the header \<open>Connection: close\<close> and the server-closed message as body.
  Otherwise it loads the flag, adds one to \<open>requestCount\<close>, calls the user handler
  (which sees the counter one higher), and takes the one off again after the handler
  returned or panicked: the server ends as it began, for every inner handler.
\<close>

theorem wrappedHandler_gate:
  "(inShutdown srv \<noteq> 0 \<longrightarrow>
      wrappedHandler inner srv w r =
        ((srv, [LoadInShutdown]),
         Write ''http: Server closed'' (WriteHeader 503 (Header_Set ''Connection'' ''close'' w)),
         Returned) \<and>
      (statusCode w = None \<longrightarrow>
         (let w' = fst (snd (wrappedHandler inner srv w r))
          in statusCode w' = Some 503 \<and> header w' ''Connection'' = Some [''close''] \<and>
             body w' = body w @ ''http: Server closed''))) \<and>
   (inShutdown srv = 0 \<longrightarrow>
      wrappedHandler (Some (UserHandler h)) srv w r =
        ((srv, [LoadInShutdown, AddRequestCount 1, CallUserHandler (requestCount srv + 1),
                AddRequestCount (- 1)]),
         h r (requestCount srv + 1) w) \<and>
      fst (fst (wrappedHandler inner srv w r)) = srv)"
proof -
  have keep: "fst (fst (wrappedHandler inner srv w r)) = srv"
    unfolding wrappedHandler_def by (rule ServeHTTP_server)
  have rest: "(inShutdown srv \<noteq> 0 \<longrightarrow>
      wrappedHandler inner srv w r =
        ((srv, [LoadInShutdown]),
         Write ''http: Server closed'' (WriteHeader 503 (Header_Set ''Connection'' ''close'' w)),
         Returned) \<and>
      (statusCode w = None \<longrightarrow>
         (let w' = fst (snd (wrappedHandler inner srv w r))
          in statusCode w' = Some 503 \<and> header w' ''Connection'' = Some [''close''] \<and>
             body w' = body w @ ''http: Server closed''))) \<and>
   (inShutdown srv = 0 \<longrightarrow>
      wrappedHandler (Some (UserHandler h)) srv w r =
        ((srv, [LoadInShutdown, AddRequestCount 1, CallUserHandler (requestCount srv + 1),
                AddRequestCount (- 1)]),
         h r (requestCount srv + 1) w))"
    by (simp add: wrappedHandler_def atomic_AddRequestCount_def split_beta
        StatusServiceUnavailable_def Write_def WriteHeader_def Header_Set_def)
  from keep rest show ?thesis by blast
qed

theorem wrappedHandler_gate_witness:
  "wrappedHandler (Some (UserHandler (\<lambda>r n w. (Write ''ok'' w, Panicked))))
     (NewServer [''127.0.0.1:9000''] :: unit server)
     \<lparr>header = Map.empty, statusCode = None, body = []\<rparr> () =
     ((NewServer [''127.0.0.1:9000''],
       [LoadInShutdown, AddRequestCount 1, CallUserHandler 1, AddRequestCount (- 1)]),
      \<lparr>header = Map.empty, statusCode = Some 200, body = ''ok''\<rparr>, Panicked) \<and>
   statusCode (fst (snd (wrappedHandler None
       ((NewServer [''127.0.0.1:9000''] :: unit server)\<lparr>inShutdown := 1\<rparr>)
       \<lparr>header = Map.empty, statusCode = None, body = []\<rparr> ()))) = Some 503"
  using wrappedHandler_gate [of "NewServer [''127.0.0.1:9000'']" None
      "\<lparr>header = Map.empty, statusCode = None, body = []\<rparr>" "()"
      "\<lambda>r n w. (Write ''ok'' w, Panicked)"]
    wrappedHandler_gate [of "(NewServer [''127.0.0.1:9000''])\<lparr>inShutdown := 1\<rparr>" None
      "\<lparr>header = Map.empty, statusCode = None, body = []\<rparr>" "()"
      "\<lambda>r n w. (Write ''ok'' w, Panicked)"]
  by (simp add: NewServer_def Write_def WriteHeader_def Header_Set_def Let_def)

subsection \<open>Shutdown\<close>

lemma word32_succ_ne0:
  fixes x :: "32 word"
  shows "x + 1 \<noteq> 0 \<longleftrightarrow> x \<noteq> 4294967295"
proof -
  have a: "(x + 1 = 0) = (x = - 1)" by (simp add: eq_neg_iff_add_eq_0)
  have "(4294967295 :: 32 word) + 1 = 0" by simp
  then have b: "(4294967295 :: 32 word) = - 1" by (simp only: eq_neg_iff_add_eq_0)
  show ?thesis by (simp only: a b)
qed

lemma word32_unat_succ:
  fixes x :: "32 word"
  assumes "x \<noteq> 4294967295"
  shows "unat (x + 1) = Suc (unat x)"
  using assms unatSuc [of x] word32_succ_ne0 [of x] by (simp add: add.commute)

lemma word32_succ_gt1:
  fixes x :: "32 word"
  assumes "x \<noteq> 0" "x \<noteq> 4294967295"
  shows "1 < x + 1"
  using assms word32_unat_succ [of x] by (simp add: word_less_nat_alt unat_gt_0)

lemma word32_small:
  fixes x :: "32 word"
  assumes "unat x + Suc n < 2 ^ 32"
  shows "x \<noteq> 4294967295"
proof
  assume "x = 4294967295"
  then have "unat x = 4294967295" by simp
  with assms show False by simp
qed

lemma Shutdown_no_listener:
  "listener srv = None \<Longrightarrow> Shutdown env srv = (Some ErrServerClosed, srv, [])"
  by (simp add: Shutdown_def)

lemma Shutdown_in_progress:
  "listener srv = Some l \<Longrightarrow> inShutdown srv \<noteq> 0 \<Longrightarrow> inShutdown srv \<noteq> 4294967295 \<Longrightarrow>
     Shutdown env srv = (Some ErrServerClosed, srv\<lparr>inShutdown := inShutdown srv + 1\<rparr>, [AddInShutdown])"
  by (simp add: Shutdown_def word32_succ_gt1)

lemma pollLoop_events:
  "\<exists>evs'. snd (pollLoop cs final tmp evs) = evs @ evs' \<and> evs' \<noteq> []"
proof (induction cs arbitrary: evs)
  case Nil
  then show ?case by (auto split: option.splits)
next
  case (Cons c cs)
  show ?case
  proof (cases "sint c \<le> 0")
    case True
    then show ?thesis by simp
  next
    case False
    obtain evs' where "snd (pollLoop cs final tmp (evs @ [LoadRequestCount c])) =
        (evs @ [LoadRequestCount c]) @ evs'"
      using Cons.IH by blast
    then have "snd (pollLoop (c # cs) final tmp evs) = evs @ (LoadRequestCount c # evs')"
      using False by simp
    then show ?thesis by blast
  qed
qed

lemma Shutdown_first:
  assumes "listener srv = Some l" "inShutdown srv = 0"
  shows "fst (snd (Shutdown env srv)) =
           srv\<lparr>inShutdown := 1, listener := Some (l\<lparr>closeCalls := closeCalls l + 1\<rparr>)\<rparr>"
    and "take 2 (snd (snd (Shutdown env srv))) = [AddInShutdown, CloseListener]"
    and "closeResult env = None \<Longrightarrow> 2 < length (snd (snd (Shutdown env srv)))"
proof -
  obtain evs' where p: "snd (pollLoop (pollCounts env) (deadlineCount env) (tmpName env)
           [AddInShutdown, CloseListener]) = [AddInShutdown, CloseListener] @ evs'" "evs' \<noteq> []"
    using pollLoop_events by blast
  show "fst (snd (Shutdown env srv)) =
           srv\<lparr>inShutdown := 1, listener := Some (l\<lparr>closeCalls := closeCalls l + 1\<rparr>)\<rparr>"
    using assms by (simp add: Shutdown_def split_beta Let_def split: option.splits)
  show "take 2 (snd (snd (Shutdown env srv))) = [AddInShutdown, CloseListener]"
    using assms p by (simp add: Shutdown_def split_beta Let_def split: option.splits)
  show "closeResult env = None \<Longrightarrow> 2 < length (snd (snd (Shutdown env srv)))"
    using assms p by (cases evs') (simp_all add: Shutdown_def split_beta Let_def)
qed

lemma Shutdown_calls_in_progress:
  "listener srv = Some l \<Longrightarrow> inShutdown srv \<noteq> 0 \<Longrightarrow> unat (inShutdown srv) + length envs < 2 ^ 32 \<Longrightarrow>
     Shutdown_calls envs srv =
       (replicate (length envs) (Some ErrServerClosed),
        srv\<lparr>inShutdown := inShutdown srv + of_nat (length envs)\<rparr>)"
proof (induction envs arbitrary: srv)
  case Nil
  then show ?case by simp
next
  case (Cons env envs)
  let ?x = "inShutdown srv"
  have nm1: "?x \<noteq> 4294967295"
    using Cons.prems(3) word32_small [of ?x "length envs"] by simp
  have nz: "?x + 1 \<noteq> 0" using nm1 by (simp add: word32_succ_ne0)
  have un: "unat (?x + 1) = Suc (unat ?x)"
    using nm1 by (rule word32_unat_succ)
  let ?srv1 = "srv\<lparr>inShutdown := ?x + 1\<rparr>"
  have s1: "Shutdown env srv = (Some ErrServerClosed, ?srv1, [AddInShutdown])"
    using Cons.prems(1,2) nm1 by (rule Shutdown_in_progress)
  have "Shutdown_calls envs ?srv1 =
       (replicate (length envs) (Some ErrServerClosed),
        ?srv1\<lparr>inShutdown := inShutdown ?srv1 + of_nat (length envs)\<rparr>)"
    using Cons.prems nz un by (intro Cons.IH) auto
  with s1 show ?case by (simp add: add.assoc add.commute)
qed

lemma Shutdown_calls_append:
  "Shutdown_calls (xs @ ys) srv =
     (let (r1, s1) = Shutdown_calls xs srv; (r2, s2) = Shutdown_calls ys s1 in (r1 @ r2, s2))"
  by (induction xs arbitrary: srv) (simp_all add: split_beta)

lemma word32_of_nat_ne0:
  assumes "n < 4294967295"
  shows "(1 + of_nat n :: 32 word) \<noteq> 0"
proof -
  have "\<not> 2 ^ 32 dvd Suc n"
    using assms by (auto dest!: dvd_imp_le)
  then have "(of_nat (Suc n) :: 32 word) \<noteq> 0"
    unfolding word_of_nat_eq_0_iff by simp
  then show ?thesis by simp
qed

text \<open>
  C6, at an input where it fails. \<open>inShutdown\<close> is a \<open>uint32\<close> that every call finding
  a listener increments with \<open>atomic.AddUint32\<close>. In a run of \<open>2^32\<close> calls on a server
  with a listener, the first call closes the listener and returns \<open>nil\<close>, the next
  \<open>2^32 - 2\<close> calls return the server-closed error, and the last call wraps the field
  to zero: the new value is not above one, so this call closes the listener a second
  time, polls, and returns \<open>nil\<close>, and the server is no longer marked as in shutdown.
\<close>

theorem Shutdown_inShutdown_wraps:
  "Shutdown_calls (shutdown0 # replicate 4294967294 shutdown0 @ [shutdown0]) server0 =
     (None # replicate 4294967294 (Some ErrServerClosed) @ [None],
      server0\<lparr>inShutdown := 0, listener := Some \<lparr>closeCalls = 2\<rparr>\<rparr>)"
proof -
  define s1 where "s1 = server0\<lparr>inShutdown := 1, listener := Some \<lparr>closeCalls = 1\<rparr>\<rparr>"
  define s2 where "s2 = s1\<lparr>inShutdown := 4294967295\<rparr>"
  define s3 where "s3 = s2\<lparr>inShutdown := 0, listener := Some \<lparr>closeCalls = 2\<rparr>\<rparr>"
  have s0: "listener server0 = Some \<lparr>closeCalls = 0\<rparr>" "inShutdown server0 = 0"
    by (simp_all add: server0_def Server_Init_def NewServer_def)
  have first: "Shutdown shutdown0 server0 = (None, s1, [AddInShutdown, CloseListener, LoadRequestCount 0])"
    using s0 by (simp add: Shutdown_def shutdown0_def s1_def)
  have "Shutdown_calls (replicate 4294967294 shutdown0) s1 =
       (replicate (length (replicate 4294967294 shutdown0)) (Some ErrServerClosed),
        s1\<lparr>inShutdown := inShutdown s1 + of_nat (length (replicate 4294967294 shutdown0))\<rparr>)"
    by (rule Shutdown_calls_in_progress [of s1 "\<lparr>closeCalls = 1\<rparr>"]) (simp_all add: s1_def)
  then have mid: "Shutdown_calls (replicate 4294967294 shutdown0) s1 =
       (replicate 4294967294 (Some ErrServerClosed), s2)"
    by (simp add: s1_def s2_def)
  have wrap: "(4294967296 :: 32 word) = 0" by simp
  have lst: "Shutdown shutdown0 s2 = (None, s3, [AddInShutdown, CloseListener, LoadRequestCount 0])"
    by (simp add: Shutdown_def shutdown0_def s1_def s2_def s3_def wrap)
  have "Shutdown_calls (shutdown0 # replicate 4294967294 shutdown0 @ [shutdown0]) server0 =
          (None # replicate 4294967294 (Some ErrServerClosed) @ [None], s3)"
    using first mid lst by (simp add: Shutdown_calls_append)
  then show ?thesis
    by (simp add: s3_def s2_def s1_def)
qed

text \<open>
  What does hold. \<open>Shutdown\<close> returns the server-closed error when no listener is
  installed, and when it finds \<open>inShutdown\<close> set to a value other than the largest
  \<open>uint32\<close>; it then does nothing but add one to \<open>inShutdown\<close>. After a first call
  that found the field at zero (and closed the listener), each of the next \<open>2^32 - 2\<close>
  calls returns the server-closed error, the field stays non-zero, and the listener has
  been closed exactly once.
\<close>

lemma Shutdown_server_closed:
  "(listener srv = None \<longrightarrow> Shutdown env srv = (Some ErrServerClosed, srv, [])) \<and>
   (listener srv = Some l \<and> inShutdown srv \<noteq> 0 \<and> inShutdown srv \<noteq> 4294967295 \<longrightarrow>
      Shutdown env srv =
        (Some ErrServerClosed, srv\<lparr>inShutdown := inShutdown srv + 1\<rparr>, [AddInShutdown])) \<and>
   (listener srv = Some l \<and> inShutdown srv = 0 \<and> length envs < 4294967295 \<longrightarrow>
      (let (res, srv1, evs) = Shutdown env srv;
           (ress, srv2) = Shutdown_calls envs srv1
       in take 2 evs = [AddInShutdown, CloseListener] \<and>
          ress = replicate (length envs) (Some ErrServerClosed) \<and>
          inShutdown srv2 \<noteq> 0 \<and>
          listener srv2 = Some (l\<lparr>closeCalls := closeCalls l + 1\<rparr>)))"
proof (intro conjI impI)
  assume "listener srv = None"
  then show "Shutdown env srv = (Some ErrServerClosed, srv, [])"
    by (rule Shutdown_no_listener)
next
  assume "listener srv = Some l \<and> inShutdown srv \<noteq> 0 \<and> inShutdown srv \<noteq> 4294967295"
  then show "Shutdown env srv =
        (Some ErrServerClosed, srv\<lparr>inShutdown := inShutdown srv + 1\<rparr>, [AddInShutdown])"
    by (simp add: Shutdown_in_progress)
next
  assume a: "listener srv = Some l \<and> inShutdown srv = 0 \<and> length envs < 4294967295"
  obtain res srv1 evs where s: "Shutdown env srv = (res, srv1, evs)"
    by (metis prod.exhaust)
  let ?l1 = "l\<lparr>closeCalls := closeCalls l + 1\<rparr>"
  have srv1: "srv1 = srv\<lparr>inShutdown := 1, listener := Some ?l1\<rparr>"
    using Shutdown_first(1) [of srv l env] a s by simp
  have evs: "take 2 evs = [AddInShutdown, CloseListener]"
    using Shutdown_first(2) [of srv l env] a s by simp
  have calls: "Shutdown_calls envs srv1 =
       (replicate (length envs) (Some ErrServerClosed),
        srv1\<lparr>inShutdown := inShutdown srv1 + of_nat (length envs)\<rparr>)"
    using a srv1 by (intro Shutdown_calls_in_progress [of srv1 ?l1]) simp_all
  have "(1 + of_nat (length envs) :: 32 word) \<noteq> 0"
    using a by (simp add: word32_of_nat_ne0)
  with s srv1 evs calls
  show "let (res, srv1, evs) = Shutdown env srv;
           (ress, srv2) = Shutdown_calls envs srv1
       in take 2 evs = [AddInShutdown, CloseListener] \<and>
          ress = replicate (length envs) (Some ErrServerClosed) \<and>
          inShutdown srv2 \<noteq> 0 \<and>
          listener srv2 = Some (l\<lparr>closeCalls := closeCalls l + 1\<rparr>)"
    by simp
qed

subsection \<open>Init\<close>

text \<open>
  The loop over \<open>listenErrs\<close> when every index is within \<open>Addrs\<close>: the callback is
  called for the addresses with an error, in order, and \<open>interfaceFound\<close> is set when
  some slot holds no error.
\<close>

lemma reportListenErrs_in_range:
  "i + length es \<le> length addrs \<Longrightarrow>
     reportListenErrs addrs es i cbs found =
       (cbs @ map (\<lambda>(a, eo). (a, the eo)) (filter (\<lambda>(a, eo). eo \<noteq> None) (zip (drop i addrs) es)),
        Some (found \<or> None \<in> set es))"
proof (induction es arbitrary: i cbs found)
  case Nil
  then show ?case by simp
next
  case (Cons eo es)
  then have i: "i < length addrs" and rest: "Suc i + length es \<le> length addrs"
    by simp_all
  have d: "drop i addrs = addrs ! i # drop (Suc i) addrs"
    using i by (simp add: Cons_nth_drop_Suc)
  show ?case
  proof (cases eo)
    case None
    then show ?thesis using Cons.IH [OF rest] d by simp
  next
    case (Some e)
    then show ?thesis using Cons.IH [OF rest] d i by auto
  qed
qed

text \<open>
  C7. \<open>newHTTPListener\<close> returns one error slot for each address. Then
  \<open>listenErrCallback\<close> is called exactly once for each address that failed to bind, with
  that address and its error, in order. If at least one address bound, \<open>Init\<close> returns
  a serve function and no error, and installs the wrapped handler and the listener; if
  none did, it returns no serve function and the error "no available interface found",
  and leaves the server as it was.
\<close>

theorem Server_Init_interfaces:
  assumes "length listenErrs = length (Addrs srv)"
  shows "(case Server_Init (lst, listenErrs) srv of (res, srv', cbs) \<Rightarrow>
           cbs = map (\<lambda>(a, eo). (a, the eo))
                   (filter (\<lambda>(a, eo). eo \<noteq> None) (zip (Addrs srv) listenErrs)) \<and>
           (if None \<in> set listenErrs
            then res = InitReturns (Some \<lparr>serveOn = lst, withTLS = (TLSConfig srv \<noteq> None)\<rparr>) None \<and>
                 srv' = srv\<lparr>Handler := Some (WrappedHandler (Handler srv)), listener := lst\<rparr>
            else res = InitReturns None (Some (ErrorsNew ''no available interface found'')) \<and>
                 srv' = srv))"
  using assms reportListenErrs_in_range [of 0 listenErrs "Addrs srv" "[]" False]
  by (simp add: Server_Init_def)

theorem Server_Init_interfaces_witness:
  "Server_Init (Some \<lparr>closeCalls = 0\<rparr>, [Some (External ''address already in use''), None])
     (NewServer [''127.0.0.1:9000'', ''[::1]:9000''] :: unit server) =
     (InitReturns (Some \<lparr>serveOn = Some \<lparr>closeCalls = 0\<rparr>, withTLS = False\<rparr>) None,
      (NewServer [''127.0.0.1:9000'', ''[::1]:9000''])
        \<lparr>Handler := Some (WrappedHandler None), listener := Some \<lparr>closeCalls = 0\<rparr>\<rparr>,
      [(''127.0.0.1:9000'', External ''address already in use'')]) \<and>
   fst (Server_Init (None, [Some (External ''address already in use'')])
     (NewServer [''127.0.0.1:9000''] :: unit server)) =
     InitReturns None (Some (ErrorsNew ''no available interface found''))"
  using Server_Init_interfaces [of "[Some (External ''address already in use''), None]"
      "NewServer [''127.0.0.1:9000'', ''[::1]:9000'']" "Some \<lparr>closeCalls = 0\<rparr>"]
    Server_Init_interfaces [of "[Some (External ''address already in use'')]"
      "NewServer [''127.0.0.1:9000'']" None]
  by (simp add: NewServer_def Server_Init_def)

section \<open>Properties of the target\<close>

subsection \<open>The example targets\<close>

text \<open>The example targets as \<open>New\<close> builds them.\<close>

lemma New_cfg_chan:
  "New cfg_chan = Some
        \<lparr>totalMessages = 0, failedMessages = 0, status = statusOffline, workers = 0,
         workerStartMu = False, muWaiters = [], lastStarted = 0,
         logCh = Some \<lparr>capacity = 1, buf = [], sendq = [], recvq = 0\<rparr>,
         reviveDone = False, reviveRunning = False, store = None, storeCancelled = False,
         initQueueStoreDone = False, config = cfg_chan, loggers = 0, registered = 0, inHand = []\<rparr>"
  by (simp add: New_def cfg_chan_def makechan_panics_def maxAlloc_def hchanSize_def)

lemma New_cfg_legacy:
  "New cfg_legacy = Some
        \<lparr>totalMessages = 0, failedMessages = 0, status = statusOffline, workers = 0,
         workerStartMu = False, muWaiters = [], lastStarted = 0,
         logCh = Some \<lparr>capacity = 0, buf = [], sendq = [], recvq = 0\<rparr>,
         reviveDone = False, reviveRunning = False, store = None, storeCancelled = False,
         initQueueStoreDone = False, config = cfg_legacy, loggers = 0, registered = 0, inHand = []\<rparr>"
  by (simp add: New_def cfg_legacy_def makechan_panics_def maxAlloc_def hchanSize_def)

lemma New_cfg_store:
  "New cfg_store = Some
        \<lparr>totalMessages = 0, failedMessages = 0, status = statusOffline, workers = 0,
         workerStartMu = False, muWaiters = [], lastStarted = 0,
         logCh = Some \<lparr>capacity = 1, buf = [], sendq = [], recvq = 0\<rparr>,
         reviveDone = False, reviveRunning = False, store = None, storeCancelled = False,
         initQueueStoreDone = False, config = cfg_store, loggers = 0, registered = 0, inHand = []\<rparr>"
  by (simp add: New_def cfg_store_def makechan_panics_def maxAlloc_def hchanSize_def)

subsection \<open>The delivery loop\<close>

text \<open>One iteration of the loop, as a stop, or as an attempt followed by the rest.\<close>

lemma logEntry_loop_stop:
  "tries > 0 \<Longrightarrow> tries \<ge> 10 \<or> loadStatus lenv tries = statusClosed \<Longrightarrow>
     logEntry_loop lenv j tries (h, evs) = (h, evs)"
  by (simp add: logEntry_loop.simps)

lemma retrySleep_min: "retrySleep k = min ((int k + 2) ^ 2) 1000 * Millisecond"
  by (simp add: retrySleep_def Second_def Millisecond_def min_def Let_def)

lemma logEntry_loop_attempt:
  "tries = 0 \<or> (tries < 10 \<and> loadStatus lenv tries \<noteq> statusClosed) \<Longrightarrow>
   logEntry_loop lenv j tries (h, evs) =
     (case send (config h) (posts lenv (Suc tries)) of
        Some err \<Rightarrow>
          logEntry_loop lenv j (Suc tries)
            (h\<lparr>failedMessages := failedMessages h + 1\<rparr>, evs @ spec_attempt (config h) lenv j tries)
      | None \<Rightarrow> (h, evs @ spec_attempt (config h) lenv j tries))"
  by (subst logEntry_loop.simps)
     (auto simp: Let_def spec_attempt_def retrySleep_min split: option.split)

text \<open>
  The loop entered with \<open>t\<close> attempts completed, where it goes on to attempt
  \<open>t + 1\<close>: it ends after some attempt \<open>n\<close>.
\<close>

lemma logEntry_loop_spec:
  assumes "t < 10" and "t = 0 \<or> loadStatus lenv t \<noteq> statusClosed"
  shows "\<exists>n. t < n \<and> n \<le> 10 \<and>
     logEntry_loop lenv j t (h, evs) =
       (h\<lparr>failedMessages := failedMessages h +
              of_nat (if send (config h) (posts lenv n) = None then n - t - 1 else n - t)\<rparr>,
        evs @ concat (map (spec_attempt (config h) lenv j) [t..<n])) \<and>
     (\<forall>k. t < k \<and> k < n \<longrightarrow>
          send (config h) (posts lenv k) \<noteq> None \<and> loadStatus lenv k \<noteq> statusClosed) \<and>
     (send (config h) (posts lenv n) = None \<or> n = 10 \<or> loadStatus lenv n = statusClosed)"
  using assms
proof (induction "10 - t" arbitrary: t h evs)
  case 0
  then show ?case by simp
next
  case (Suc d)
  have unfold: "logEntry_loop lenv j t (h, evs) =
     (case send (config h) (posts lenv (Suc t)) of
        Some err \<Rightarrow>
          logEntry_loop lenv j (Suc t)
            (h\<lparr>failedMessages := failedMessages h + 1\<rparr>, evs @ spec_attempt (config h) lenv j t)
      | None \<Rightarrow> (h, evs @ spec_attempt (config h) lenv j t))"
    using Suc.prems by (intro logEntry_loop_attempt) auto
  show ?case
  proof (cases "send (config h) (posts lenv (Suc t))")
    case None
    with unfold Suc.prems show ?thesis
      by (intro exI [of _ "Suc t"]) auto
  next
    case (Some err)
    let ?h1 = "h\<lparr>failedMessages := failedMessages h + 1\<rparr>"
    let ?evs1 = "evs @ spec_attempt (config h) lenv j t"
    have step: "logEntry_loop lenv j t (h, evs) = logEntry_loop lenv j (Suc t) (?h1, ?evs1)"
      using unfold Some by simp
    show ?thesis
    proof (cases "Suc t \<ge> 10 \<or> loadStatus lenv (Suc t) = statusClosed")
      case True
      then have "logEntry_loop lenv j (Suc t) (?h1, ?evs1) = (?h1, ?evs1)"
        by (intro logEntry_loop_stop) auto
      with step Some True Suc.prems show ?thesis
        by (intro exI [of _ "Suc t"]) auto
    next
      case False
      then have lt: "Suc t < 10" and open_: "loadStatus lenv (Suc t) \<noteq> statusClosed"
        by auto
      have d: "d = 10 - Suc t" using Suc.hyps(2) by simp
      obtain n where n: "Suc t < n" "n \<le> 10"
        and res: "logEntry_loop lenv j (Suc t) (?h1, ?evs1) =
           (?h1\<lparr>failedMessages := failedMessages ?h1 +
                of_nat (if send (config ?h1) (posts lenv n) = None then n - Suc t - 1 else n - Suc t)\<rparr>,
            ?evs1 @ concat (map (spec_attempt (config ?h1) lenv j) [Suc t..<n]))"
        and mid: "\<forall>k. Suc t < k \<and> k < n \<longrightarrow>
            send (config ?h1) (posts lenv k) \<noteq> None \<and> loadStatus lenv k \<noteq> statusClosed"
        and fin: "send (config ?h1) (posts lenv n) = None \<or> n = 10 \<or> loadStatus lenv n = statusClosed"
        using Suc.hyps(1) [OF d lt, of ?h1 ?evs1] open_ by blast
      have upt: "[t..<n] = t # [Suc t..<n]"
        using n by (simp add: upt_conv_Cons)
      have cnt: "(1 :: 64 word) + of_nat (n - Suc t - 1) = of_nat (n - t - 1)"
                "(1 :: 64 word) + of_nat (n - Suc t) = of_nat (n - t)"
      proof -
        have e: "n - t - 1 = Suc (n - Suc t - 1)" "n - t = Suc (n - Suc t)"
          using n by simp_all
        show "(1 :: 64 word) + of_nat (n - Suc t - 1) = of_nat (n - t - 1)"
          by (simp only: e(1) of_nat_Suc)
        show "(1 :: 64 word) + of_nat (n - Suc t) = of_nat (n - t)"
          by (simp only: e(2) of_nat_Suc)
      qed
      have mid': "\<forall>k. t < k \<and> k < n \<longrightarrow>
            send (config h) (posts lenv k) \<noteq> None \<and> loadStatus lenv k \<noteq> statusClosed"
      proof (intro allI impI)
        fix k assume k: "t < k \<and> k < n"
        show "send (config h) (posts lenv k) \<noteq> None \<and> loadStatus lenv k \<noteq> statusClosed"
        proof (cases "k = Suc t")
          case True
          with Some open_ show ?thesis by simp
        next
          case False
          with k mid show ?thesis by simp
        qed
      qed
      have "logEntry_loop lenv j t (h, evs) =
         (h\<lparr>failedMessages := failedMessages h +
              of_nat (if send (config h) (posts lenv n) = None then n - t - 1 else n - t)\<rparr>,
          evs @ concat (map (spec_attempt (config h) lenv j) [t..<n]))"
        using step res upt cnt by (simp add: add.assoc)
      with n mid' fin show ?thesis
        by (intro exI [of _ n]) simp
    qed
  qed
qed

lemma spec_attempt_posts:
  "length (filter (\<lambda>e. e = Post j) (spec_attempt cfg lenv j k)) = 1"
  by (simp add: spec_attempt_def split: option.split)

lemma spec_attempts_posts:
  "length (filter (\<lambda>e. e = Post j) (concat (map (spec_attempt cfg lenv j) [0..<n]))) = n"
  by (induction n) (simp_all add: spec_attempt_posts)

text \<open>
  C4. When the entry does not encode, \<open>logEntry\<close> counts one failed message and sends
  nothing. Otherwise it makes \<open>n\<close> attempts with \<open>1 \<le> n \<le> 10\<close>, and what it does is
  the specification's account of the attempts \<open>0, ..., n - 1\<close> in order: before every
  attempt but the first it sleeps \<open>min((k+2)^2, 1000)\<close> ms, where \<open>k\<close> counts the
  attempts completed; it POSTs once per attempt; and it reports every failed attempt
  through \<open>LogOnce\<close>, adding one to \<open>failedMessages\<close> for each. Every attempt before
  the last failed and found the target not closed; the loop ends because the last
  attempt succeeded, or was the tenth, or the target was closed when it failed.
\<close>

theorem logEntry_retries:
  "(\<forall>err. Marshal x entry = Inl err \<longrightarrow>
      logEntry x lenv entry h = (h\<lparr>failedMessages := failedMessages h + 1\<rparr>, [])) \<and>
   (\<forall>j. Marshal x entry = Inr j \<longrightarrow>
      (\<exists>n. 1 \<le> n \<and> n \<le> 10 \<and>
         logEntry x lenv entry h =
           (h\<lparr>failedMessages := failedMessages h +
                  of_nat (if send (config h) (posts lenv n) = None then n - 1 else n)\<rparr>,
            concat (map (spec_attempt (config h) lenv j) [0..<n])) \<and>
         length (filter (\<lambda>e. e = Post j) (snd (logEntry x lenv entry h))) = n \<and>
         (\<forall>k. 0 < k \<and> k < n \<longrightarrow>
            send (config h) (posts lenv k) \<noteq> None \<and> loadStatus lenv k \<noteq> statusClosed) \<and>
         (send (config h) (posts lenv n) = None \<or> n = 10 \<or> loadStatus lenv n = statusClosed)))"
proof (intro conjI allI impI)
  fix err assume "Marshal x entry = Inl err"
  then show "logEntry x lenv entry h = (h\<lparr>failedMessages := failedMessages h + 1\<rparr>, [])"
    by (simp add: logEntry_def)
next
  fix j assume m: "Marshal x entry = Inr j"
  obtain n where n: "0 < n" "n \<le> 10"
    and res: "logEntry_loop lenv j 0 (h, []) =
       (h\<lparr>failedMessages := failedMessages h +
              of_nat (if send (config h) (posts lenv n) = None then n - 0 - 1 else n - 0)\<rparr>,
        [] @ concat (map (spec_attempt (config h) lenv j) [0..<n]))"
    and mid: "\<forall>k. 0 < k \<and> k < n \<longrightarrow>
          send (config h) (posts lenv k) \<noteq> None \<and> loadStatus lenv k \<noteq> statusClosed"
    and fin: "send (config h) (posts lenv n) = None \<or> n = 10 \<or> loadStatus lenv n = statusClosed"
    using logEntry_loop_spec [of 0 lenv j h "[]"] by auto
  have eq: "logEntry x lenv entry h =
           (h\<lparr>failedMessages := failedMessages h +
                  of_nat (if send (config h) (posts lenv n) = None then n - 1 else n)\<rparr>,
            concat (map (spec_attempt (config h) lenv j) [0..<n]))"
    using m res by (simp add: logEntry_def)
  have cnt: "length (filter (\<lambda>e. e = Post j) (snd (logEntry x lenv entry h))) = n"
    by (simp only: eq snd_conv spec_attempts_posts)
  show "\<exists>n. 1 \<le> n \<and> n \<le> 10 \<and>
         logEntry x lenv entry h =
           (h\<lparr>failedMessages := failedMessages h +
                  of_nat (if send (config h) (posts lenv n) = None then n - 1 else n)\<rparr>,
            concat (map (spec_attempt (config h) lenv j) [0..<n])) \<and>
         length (filter (\<lambda>e. e = Post j) (snd (logEntry x lenv entry h))) = n \<and>
         (\<forall>k. 0 < k \<and> k < n \<longrightarrow>
            send (config h) (posts lenv k) \<noteq> None \<and> loadStatus lenv k \<noteq> statusClosed) \<and>
         (send (config h) (posts lenv n) = None \<or> n = 10 \<or> loadStatus lenv n = statusClosed)"
    using n eq cnt mid fin by (intro exI [of _ n]) simp
qed

theorem logEntry_retries_witness:
  "logEntry ext0 flaky 5 (the (New cfg_chan)) =
     ((the (New cfg_chan))\<lparr>failedMessages := 2\<rparr>,
      [Post ''{}'',
       LogOnce (the (send cfg_chan (Response 403 ''403 Forbidden''))) ''http://fixture/ok'',
       Sleep 9000000, Post ''{}'',
       LogOnce (the (send cfg_chan (Response 403 ''403 Forbidden''))) ''http://fixture/ok'',
       Sleep 16000000, Post ''{}''])"
proof -
  have m: "Marshal ext0 5 = Inr ''{}''"
    by (simp add: ext0_def)
  obtain n :: nat where "1 \<le> n" "n \<le> 10"
    using logEntry_retries [of ext0 5 flaky "the (New cfg_chan)"] m by blast
  moreover have "logEntry ext0 flaky 5 (the (New cfg_chan)) =
     ((the (New cfg_chan))\<lparr>failedMessages := 2\<rparr>,
      [Post ''{}'',
       LogOnce (the (send cfg_chan (Response 403 ''403 Forbidden''))) ''http://fixture/ok'',
       Sleep 9000000, Post ''{}'',
       LogOnce (the (send cfg_chan (Response 403 ''403 Forbidden''))) ''http://fixture/ok'',
       Sleep 16000000, Post ''{}''])"
    by (simp add: logEntry_def m logEntry_loop_attempt logEntry_loop_stop flaky_def New_def
        makechan_panics_def maxAlloc_def hchanSize_def cfg_chan_def send_def spec_attempt_def
        Millisecond_def)
  ultimately show ?thesis by simp
qed

subsection \<open>SendFromStore\<close>

text \<open>Every error of \<open>send\<close> is made by \<open>fmt.Errorf\<close>, so none is the value \<open>ErrNotConnected\<close>.\<close>

lemma send_not_ErrNotConnected: "send cfg r \<noteq> Some ErrNotConnected"
  by (simp add: send_def split: http_result.split)

text \<open>
  C8. For an entry that the store returns and that encodes: after a successful POST
  \<open>SendFromStore\<close> calls \<open>Del\<close> for the key and returns its result; after a send error
  that counts as network or host down it calls no \<open>Del\<close> and returns
  \<open>ErrNotConnected\<close>; after any other send error it calls no \<open>Del\<close> and returns that
  error, which is not \<open>ErrNotConnected\<close>. In both error cases \<open>failedMessages\<close> grows
  by one; in all three \<open>totalMessages\<close> does.
\<close>

theorem SendFromStore_outcomes:
  "store h = Some calls \<and> getResult env = Inr ev \<and> Marshal x ev = Inr j \<longrightarrow>
     (send (config h) (post env) = None \<longrightarrow>
        SendFromStore x env key h =
          Some (delResult env,
                h\<lparr>totalMessages := totalMessages h + 1,
                   store := Some (calls @ [StoreGet key, StoreDel key])\<rparr>)) \<and>
     (\<forall>err. send (config h) (post env) = Some err \<and> IsNetworkOrHostDown x err True \<longrightarrow>
        SendFromStore x env key h =
          Some (Some ErrNotConnected,
                h\<lparr>totalMessages := totalMessages h + 1, failedMessages := failedMessages h + 1,
                   store := Some (calls @ [StoreGet key])\<rparr>)) \<and>
     (\<forall>err. send (config h) (post env) = Some err \<and> \<not> IsNetworkOrHostDown x err True \<longrightarrow>
        err \<noteq> ErrNotConnected \<and>
        SendFromStore x env key h =
          Some (Some err,
                h\<lparr>totalMessages := totalMessages h + 1, failedMessages := failedMessages h + 1,
                   store := Some (calls @ [StoreGet key])\<rparr>))"
  using send_not_ErrNotConnected [of "config h" "post env"]
  by (auto simp: SendFromStore_def Let_def)

text \<open>The example target with a store, as \<open>Init\<close> leaves it.\<close>

lemma stored_state:
  "stored =
     \<lparr>totalMessages = 0, failedMessages = 0, status = statusOffline, workers = 0,
      workerStartMu = False, muWaiters = [], lastStarted = 0,
      logCh = Some \<lparr>capacity = 1, buf = [], sendq = [], recvq = 0\<rparr>,
      reviveDone = False, reviveRunning = False, store = Some [], storeCancelled = False,
      initQueueStoreDone = True, config = cfg_store, loggers = 0, registered = 0, inHand = []\<rparr>"
proof -
  have "QueueDir cfg_store \<noteq> []" by (simp add: cfg_store_def)
  then show ?thesis
    by (simp add: stored_def New_cfg_store Target_Init_def DoWithContext_def initQueueStore_def
        online_def)
qed

theorem SendFromStore_outcomes_witness:
  "SendFromStore ext0 (replay (Response 200 ''200 OK'')) ''k1'' stored =
     Some (None, stored\<lparr>totalMessages := 1, store := Some [StoreGet ''k1'', StoreDel ''k1'']\<rparr>) \<and>
   SendFromStore ext0 (replay (DoFails (External ''connection refused''))) ''k1'' stored =
     Some (Some ErrNotConnected,
           stored\<lparr>totalMessages := 1, failedMessages := 1, store := Some [StoreGet ''k1'']\<rparr>) \<and>
   SendFromStore ext0 (replay (Response 500 ''500 Internal Server Error'')) ''k1'' stored =
     Some (send cfg_store (Response 500 ''500 Internal Server Error''),
           stored\<lparr>totalMessages := 1, failedMessages := 1, store := Some [StoreGet ''k1'']\<rparr>)"
proof -
  have pre: "store stored = Some []" "config stored = cfg_store" "Marshal ext0 7 = Inr ''{}''"
    "totalMessages stored = 0" "failedMessages stored = 0"
    by (simp_all add: stored_state ext0_def)
  have ok: "SendFromStore ext0 (replay (Response 200 ''200 OK'')) ''k1'' stored =
     Some (None, stored\<lparr>totalMessages := 1, store := Some [StoreGet ''k1'', StoreDel ''k1'']\<rparr>)"
    using SendFromStore_outcomes [of stored "[]" "replay (Response 200 ''200 OK'')" 7 ext0 "''{}''" "''k1''"] pre
    by (simp add: replay_def send_def)
  have down: "SendFromStore ext0 (replay (DoFails (External ''connection refused''))) ''k1'' stored =
     Some (Some ErrNotConnected,
           stored\<lparr>totalMessages := 1, failedMessages := 1, store := Some [StoreGet ''k1'']\<rparr>)"
    using SendFromStore_outcomes [of stored "[]" "replay (DoFails (External ''connection refused''))"
        7 ext0 "''{}''" "''k1''"] pre
    by (simp add: replay_def send_def ext0_def)
  have other: "SendFromStore ext0 (replay (Response 500 ''500 Internal Server Error'')) ''k1'' stored =
     Some (send cfg_store (Response 500 ''500 Internal Server Error''),
           stored\<lparr>totalMessages := 1, failedMessages := 1, store := Some [StoreGet ''k1'']\<rparr>)"
    using SendFromStore_outcomes [of stored "[]" "replay (Response 500 ''500 Internal Server Error'')"
        7 ext0 "''{}''" "''k1''"] pre
    by (simp add: replay_def send_def ext0_def)
  from ok down other show ?thesis by simp
qed

subsection \<open>Send\<close>

text \<open>The surroundings of the examples, and the states the example runs reach.\<close>

lemma IsOnline_online: "IsOnline x cfg (probe (online t))"
  by (simp add: IsOnline_def checkAlive_def send_def online_def)

lemma IsOnline_offline: "\<not> IsOnline ext0 cfg (probe (offline t))"
  by (simp add: IsOnline_def checkAlive_def send_def offline_def ext0_def)

lemma now_online: "now (online t) = t"
  by (simp add: online_def)

lemma Marshal_ext0: "Marshal ext0 e = Inr ''{}''"
  by (simp add: ext0_def)

lemma QueueDir_cfg_chan: "QueueDir cfg_chan = []"
  by (simp add: cfg_chan_def)

lemma ramp_up_state:
  "run ext0 ramp_up (the (New cfg_chan)) =
     \<lparr>totalMessages = 16, failedMessages = 0, status = statusOffline, workers = 16,
      workerStartMu = False, muWaiters = [], lastStarted = 32000000000,
      logCh = Some \<lparr>capacity = 1, buf = [16], sendq = [], recvq = 0\<rparr>,
      reviveDone = False, reviveRunning = False, store = None, storeCancelled = False,
      initQueueStoreDone = False, config = cfg_chan, loggers = 16, registered = 16, inHand = []\<rparr>"
  by (simp add: ramp_up_def upt_rec New_cfg_chan run_def Send_def chan_offer_def sendLocked_def
      round_def Since_def Second_def Millisecond_def maxWorkers_def loggerStart_def loggerStep_def
      chan_recv_def deliver_def logEntry_def ext0_def logEntry_loop_attempt delivered_def send_def
      spec_attempt_def IsOnline_online now_online)

lemma filled_offline_state:
  "run ext0 [ActSend 0 (offline 0)] (the (New cfg_chan)) =
     \<lparr>totalMessages = 0, failedMessages = 0, status = statusOffline, workers = 0,
      workerStartMu = False, muWaiters = [], lastStarted = 0,
      logCh = Some \<lparr>capacity = 1, buf = [0], sendq = [], recvq = 0\<rparr>,
      reviveDone = False, reviveRunning = False, store = None, storeCancelled = False,
      initQueueStoreDone = False, config = cfg_chan, loggers = 0, registered = 0, inHand = []\<rparr>"
  by (simp add: New_cfg_chan run_def Send_def chan_offer_def)

lemma busy_state:
  "run ext0 busy (the (New cfg_chan)) =
     \<lparr>totalMessages = 0, failedMessages = 0, status = statusOnline, workers = 1,
      workerStartMu = False, muWaiters = [], lastStarted = 5000000000,
      logCh = Some \<lparr>capacity = 1, buf = [3], sendq = [], recvq = 0\<rparr>,
      reviveDone = False, reviveRunning = False, store = None, storeCancelled = False,
      initQueueStoreDone = False, config = cfg_chan, loggers = 1, registered = 1, inHand = [2]\<rparr>"
  by (simp add: busy_def New_cfg_chan run_def Send_def chan_offer_def Target_Init_def
      QueueDir_cfg_chan initLogChannel_def goOnline_def startWorker_def loggerStart_def
      loggerPark_def IsOnline_online now_online)

text \<open>
  The \<open>select\<close> of \<open>Send\<close> takes its default branch exactly when no worker waits in
  a receive and the buffer has no room; on an unbuffered channel, when no worker waits.
\<close>

lemma chan_offer_NoRoom:
  "chan_offer e c = NoRoom \<longleftrightarrow> recvq c = 0 \<and> \<not> length (buf c) < capacity c"
  by (simp add: chan_offer_def)

text \<open>
  C10. On a target without a store that is not closed, at a call whose \<open>select\<close>
  takes the default branch (no worker waits in a receive and the buffer has no room,
  which on an unbuffered channel it never has), \<open>Send\<close> returns the buffer-full error
  and adds one to both \<open>totalMessages\<close> and \<open>failedMessages\<close>, changing nothing else,
  when the remote is offline and when the remote is online with \<open>workers\<close> at the
  maximum or above. \<open>Stats\<close> then reports the raised counters, with the queue length
  unchanged.
\<close>

theorem Send_full_drop_counts:
  "(store h = None \<and> status h \<noteq> statusClosed \<and> logCh h = Some c \<and>
    recvq c = 0 \<and> \<not> length (buf c) < capacity c \<and> \<not> IsOnline x (config h) (probe env) \<longrightarrow>
      Send x env entry h =
        (SendReturns (Some (ErrorsNew ''log buffer full and remote offline'')),
         h\<lparr>totalMessages := totalMessages h + 1, failedMessages := failedMessages h + 1\<rparr>) \<and>
      Stats (snd (Send x env entry h)) =
        \<lparr>TotalMessages = totalMessages h + 1, FailedMessages = failedMessages h + 1,
         QueueLength = length (buf c)\<rparr>) \<and>
   (store h = None \<and> status h \<noteq> statusClosed \<and> logCh h = Some c \<and>
    recvq c = 0 \<and> \<not> length (buf c) < capacity c \<and> IsOnline x (config h) (probe env) \<and>
    \<not> sint (workers h) < maxWorkers \<longrightarrow>
      Send x env entry h =
        (SendReturns (Some (ErrorsNew ''log buffer full, remote endpoint is not able to keep up'')),
         h\<lparr>totalMessages := totalMessages h + 1, failedMessages := failedMessages h + 1\<rparr>) \<and>
      Stats (snd (Send x env entry h)) =
        \<lparr>TotalMessages = totalMessages h + 1, FailedMessages = failedMessages h + 1,
         QueueLength = length (buf c)\<rparr>)"
  by (simp add: Send_def chan_offer_def dropEntry_def Stats_def)

theorem Send_full_drop_counts_witness:
  "Send ext0 (offline 2) 5 (run ext0 [ActSend 0 (offline 0)] (the (New cfg_chan))) =
     (SendReturns (Some (ErrorsNew ''log buffer full and remote offline'')),
      (run ext0 [ActSend 0 (offline 0)] (the (New cfg_chan)))
        \<lparr>totalMessages := 1, failedMessages := 1\<rparr>) \<and>
   Send ext0 (online 35000000000) 17 (run ext0 ramp_up (the (New cfg_chan))) =
     (SendReturns (Some (ErrorsNew ''log buffer full, remote endpoint is not able to keep up'')),
      (run ext0 ramp_up (the (New cfg_chan)))\<lparr>totalMessages := 17, failedMessages := 1\<rparr>) \<and>
   Send ext0 (offline 2) 5 (the (New cfg_legacy)) =
     (SendReturns (Some (ErrorsNew ''log buffer full and remote offline'')),
      (the (New cfg_legacy))\<lparr>totalMessages := 1, failedMessages := 1\<rparr>)"
proof -
  have a: "Send ext0 (offline 2) 5 (run ext0 [ActSend 0 (offline 0)] (the (New cfg_chan))) =
     (SendReturns (Some (ErrorsNew ''log buffer full and remote offline'')),
      (run ext0 [ActSend 0 (offline 0)] (the (New cfg_chan)))
        \<lparr>totalMessages := 1, failedMessages := 1\<rparr>)"
    using Send_full_drop_counts [of "run ext0 [ActSend 0 (offline 0)] (the (New cfg_chan))"
      "\<lparr>capacity = 1, buf = [0], sendq = [], recvq = 0\<rparr>" ext0 "offline 2" 5]
    by (simp add: filled_offline_state IsOnline_offline)
  have b: "Send ext0 (online 35000000000) 17 (run ext0 ramp_up (the (New cfg_chan))) =
     (SendReturns (Some (ErrorsNew ''log buffer full, remote endpoint is not able to keep up'')),
      (run ext0 ramp_up (the (New cfg_chan)))\<lparr>totalMessages := 17, failedMessages := 1\<rparr>)"
    using Send_full_drop_counts [of "run ext0 ramp_up (the (New cfg_chan))"
      "\<lparr>capacity = 1, buf = [16], sendq = [], recvq = 0\<rparr>" ext0 "online 35000000000" 17]
    by (simp add: ramp_up_state IsOnline_online maxWorkers_def)
  have c: "Send ext0 (offline 2) 5 (the (New cfg_legacy)) =
     (SendReturns (Some (ErrorsNew ''log buffer full and remote offline'')),
      (the (New cfg_legacy))\<lparr>totalMessages := 1, failedMessages := 1\<rparr>)"
    using Send_full_drop_counts [of "the (New cfg_legacy)"
      "\<lparr>capacity = 0, buf = [], sendq = [], recvq = 0\<rparr>" ext0 "offline 2" 5]
    by (simp add: New_cfg_legacy IsOnline_offline)
  from a b c show ?thesis by simp
qed

text \<open>
  With a worker that waits in a receive the entry is handed over and \<open>Send\<close> returns
  \<open>nil\<close>, whatever the capacity of the channel.
\<close>

lemma Send_hands_over:
  "store h = None \<Longrightarrow> status h \<noteq> statusClosed \<Longrightarrow> logCh h = Some c \<Longrightarrow> 0 < recvq c \<Longrightarrow>
     Send x env entry h =
       (SendReturns None, h\<lparr>logCh := Some (c\<lparr>recvq := recvq c - 1\<rparr>), inHand := inHand h @ [entry]\<rparr>)"
  by (simp add: Send_def chan_offer_def)

text \<open>Exactly when \<open>Send\<close> parks in the blocking channel send, and when it blocks on the mutex.\<close>

lemma Send_parks_iff:
  "(fst (Send x env entry h) = SendParked \<longleftrightarrow>
      store h = None \<and> status h \<noteq> statusClosed \<and>
      (\<exists>c. logCh h = Some c \<and> recvq c = 0 \<and> \<not> length (buf c) < capacity c) \<and>
      IsOnline x (config h) (probe env) \<and> sint (workers h) < maxWorkers \<and> \<not> workerStartMu h)"
  by (auto simp: Send_def chan_offer_def sendLocked_def dropEntry_def Let_def
      split: option.splits if_splits)

lemma Send_blocked_iff:
  "(fst (Send x env entry h) = SendBlockedOnMutex \<longleftrightarrow>
      store h = None \<and> status h \<noteq> statusClosed \<and>
      (\<exists>c. logCh h = Some c \<and> recvq c = 0 \<and> \<not> length (buf c) < capacity c) \<and>
      IsOnline x (config h) (probe env) \<and> sint (workers h) < maxWorkers \<and> workerStartMu h)"
  by (auto simp: Send_def chan_offer_def sendLocked_def dropEntry_def Let_def
      split: option.splits if_splits)

text \<open>
  C1, at an input where it fails. The target went online five seconds after the start
  of the clock, with one worker; the worker is delivering entry 2 and entry 3 fills the
  channel of capacity one. A tenth of a second after the worker was started, \<open>Send\<close>
  of entry 4 finds no room and the remote online, with one worker of at most 16. It
  starts no worker, because the last start is less than a second ago, and it returns
  nothing: it is parked in the blocking \<open>h.logCh <- entry\<close>, holding \<open>workerStartMu\<close>,
  until the worker has finished entry 2 and receives entry 3.
\<close>

theorem Send_waits_for_slot:
  "Send ext0 (online 5100000000) 4 (run ext0 busy (the (New cfg_chan))) =
     (SendParked,
      (run ext0 busy (the (New cfg_chan)))
        \<lparr>logCh := Some \<lparr>capacity = 1, buf = [3], sendq = [4], recvq = 0\<rparr>,
         workerStartMu := True\<rparr>) \<and>
   workers (snd (Send ext0 (online 5100000000) 4 (run ext0 busy (the (New cfg_chan))))) = 1 \<and>
   loggers (snd (Send ext0 (online 5100000000) 4 (run ext0 busy (the (New cfg_chan))))) = 1"
  by (simp add: busy_state Send_def chan_offer_def sendLocked_def IsOnline_online now_online
      maxWorkers_def Since_def Second_def Millisecond_def)

text \<open>
  While that call is parked, the next \<open>Send\<close> that finds no room blocks on
  \<open>workerStartMu\<close>, and \<open>Cancel\<close> waits for the write lock of \<open>logChMu\<close>. The parked
  call returns once the worker has delivered entry 2 and received entry 3.
\<close>

lemma parked_state:
  "snd (Send ext0 (online 5100000000) 4 (run ext0 busy (the (New cfg_chan)))) =
     \<lparr>totalMessages = 0, failedMessages = 0, status = statusOnline, workers = 1,
      workerStartMu = True, muWaiters = [], lastStarted = 5000000000,
      logCh = Some \<lparr>capacity = 1, buf = [3], sendq = [4], recvq = 0\<rparr>,
      reviveDone = False, reviveRunning = False, store = None, storeCancelled = False,
      initQueueStoreDone = False, config = cfg_chan, loggers = 1, registered = 1, inHand = [2]\<rparr>"
  by (simp add: busy_state Send_def chan_offer_def sendLocked_def IsOnline_online now_online
      maxWorkers_def Since_def Second_def Millisecond_def)

lemma Send_behind_parked:
  "fst (Send ext0 (online 5200000000) 5
     (snd (Send ext0 (online 5100000000) 4 (run ext0 busy (the (New cfg_chan)))))) =
     SendBlockedOnMutex"
  unfolding parked_state
  by (simp add: Send_def chan_offer_def IsOnline_online maxWorkers_def)

lemma Cancel_behind_parked:
  "fst (Cancel ext0 accepting
     (snd (Send ext0 (online 5100000000) 4 (run ext0 busy (the (New cfg_chan)))))) =
     CancelBlocked"
  unfolding parked_state
  by (simp add: Cancel_def closeAndWait_def readLockHeld_def)

lemma parked_Send_released:
  "run ext0 [ActLogger delivered, ActLogger delivered]
     (snd (Send ext0 (online 5100000000) 4 (run ext0 busy (the (New cfg_chan))))) =
     \<lparr>totalMessages = 2, failedMessages = 0, status = statusOnline, workers = 1,
      workerStartMu = False, muWaiters = [], lastStarted = 5000000000,
      logCh = Some \<lparr>capacity = 1, buf = [4], sendq = [], recvq = 0\<rparr>,
      reviveDone = False, reviveRunning = False, store = None, storeCancelled = False,
      initQueueStoreDone = False, config = cfg_chan, loggers = 1, registered = 1, inHand = []\<rparr>"
proof -
  have "run ext0 [ActLogger delivered, ActLogger delivered]
     (snd (Send ext0 (online 5100000000) 4 (run ext0 busy (the (New cfg_chan))))) =
     fst (loggerStep ext0 delivered (fst (loggerStep ext0 delivered
       (snd (Send ext0 (online 5100000000) 4 (run ext0 busy (the (New cfg_chan))))))))"
    by (simp add: run_def)
  then show ?thesis
    unfolding parked_state
    by (simp add: loggerStep_def chan_recv_def deliver_def logEntry_def Marshal_ext0
        logEntry_loop_attempt delivered_def send_def spec_attempt_def)
qed

subsection \<open>Workers\<close>

text \<open>A worker that delivers an entry changes nothing of the target but \<open>failedMessages\<close>.\<close>

lemma logEntry_loop_frame:
  "fst (logEntry_loop lenv j t (h, evs)) =
     h\<lparr>failedMessages := failedMessages (fst (logEntry_loop lenv j t (h, evs)))\<rparr>"
proof (induction "10 - t" arbitrary: t h evs)
  case 0
  then have "logEntry_loop lenv j t (h, evs) = (h, evs)"
    by (intro logEntry_loop_stop) auto
  then show ?case by simp
next
  case (Suc d)
  show ?case
  proof (cases "t > 0 \<and> (t \<ge> 10 \<or> loadStatus lenv t = statusClosed)")
    case True
    then have "logEntry_loop lenv j t (h, evs) = (h, evs)"
      by (intro logEntry_loop_stop) auto
    then show ?thesis by simp
  next
    case False
    then have go: "t = 0 \<or> (t < 10 \<and> loadStatus lenv t \<noteq> statusClosed)"
      by auto
    show ?thesis
    proof (cases "send (config h) (posts lenv (Suc t))")
      case None
      then show ?thesis
        using logEntry_loop_attempt [OF go, of j h evs] by simp
    next
      case (Some err)
      let ?h1 = "h\<lparr>failedMessages := failedMessages h + 1\<rparr>"
      let ?r = "logEntry_loop lenv j (Suc t) (?h1, evs @ spec_attempt (config h) lenv j t)"
      have d: "d = 10 - Suc t" using Suc.hyps(2) by simp
      have "fst ?r = ?h1\<lparr>failedMessages := failedMessages (fst ?r)\<rparr>"
        using Suc.hyps(1) [OF d] by blast
      then have r: "fst ?r = h\<lparr>failedMessages := failedMessages (fst ?r)\<rparr>"
        by simp
      have "logEntry_loop lenv j t (h, evs) = ?r"
        using logEntry_loop_attempt [OF go, of j h evs] Some by simp
      with r show ?thesis by simp
    qed
  qed
qed

lemma logEntry_frame:
  "fst (logEntry x lenv e h) = h\<lparr>failedMessages := failedMessages (fst (logEntry x lenv e h))\<rparr>"
proof (cases "Marshal x e")
  case (Inl err)
  then show ?thesis by (simp add: logEntry_def)
next
  case (Inr j)
  then show ?thesis using logEntry_loop_frame [of lenv j 0 h "[]"] by (simp add: logEntry_def)
qed

lemma logEntry_fields:
  "workers (fst (logEntry x lenv e h)) = workers h"
  "status (fst (logEntry x lenv e h)) = status h"
  "store (fst (logEntry x lenv e h)) = store h"
  "config (fst (logEntry x lenv e h)) = config h"
  "loggers (fst (logEntry x lenv e h)) = loggers h"
  "registered (fst (logEntry x lenv e h)) = registered h"
  "logCh (fst (logEntry x lenv e h)) = logCh h"
  "muWaiters (fst (logEntry x lenv e h)) = muWaiters h"
  by (subst logEntry_frame, simp)+

lemma deliver_fields:
  "workers (fst (deliver x lenv e h)) = workers h"
  "status (fst (deliver x lenv e h)) = status h"
  "store (fst (deliver x lenv e h)) = store h"
  "config (fst (deliver x lenv e h)) = config h"
  "loggers (fst (deliver x lenv e h)) = loggers h"
  "registered (fst (deliver x lenv e h)) = registered h"
  "logCh (fst (deliver x lenv e h)) = logCh h"
  "muWaiters (fst (deliver x lenv e h)) = muWaiters h"
  by (simp_all add: deliver_def logEntry_fields)

lemma loggerStep_fields:
  "workers (fst (loggerStep x lenv h)) = workers h"
  "status (fst (loggerStep x lenv h)) = status h"
  "store (fst (loggerStep x lenv h)) = store h"
  "config (fst (loggerStep x lenv h)) = config h"
  "loggers (fst (loggerStep x lenv h)) = loggers h"
  "registered (fst (loggerStep x lenv h)) = registered h"
  "muWaiters (fst (loggerStep x lenv h)) = muWaiters h"
  "logCh (fst (loggerStep x lenv h)) = None \<longleftrightarrow> logCh h = None"
  by (simp_all add: loggerStep_def deliver_fields split: option.splits list.splits)

text \<open>
  C3, at an input where it fails. Before \<open>Init\<close> has run, \<open>Send\<close> already starts
  workers whenever it finds the channel full and the remote reachable, up to 16. \<open>Init\<close>
  then finds the target offline and the remote reachable, and starts one more without
  looking at \<open>workers\<close>: the counter and the number of running workers are 17.
\<close>

theorem workers_exceed_maxWorkers:
  "sint (workers (run ext0 (ramp_up @ [ActInit (online 34000000000)]) (the (New cfg_chan)))) =
     maxWorkers + 1 \<and>
   loggers (run ext0 (ramp_up @ [ActInit (online 34000000000)]) (the (New cfg_chan))) = 17"
proof -
  have "run ext0 (ramp_up @ [ActInit (online 34000000000)]) (the (New cfg_chan)) =
          step ext0 (run ext0 ramp_up (the (New cfg_chan))) (ActInit (online 34000000000))"
    by (simp add: run_def)
  then show ?thesis
    by (simp add: ramp_up_state Target_Init_def QueueDir_cfg_chan initLogChannel_def goOnline_def
        startWorker_def IsOnline_online maxWorkers_def)
qed

text \<open>
  What does hold for every sequence of steps on a new target: \<open>workers\<close> stays within 0
  and 17, and within 0 and 16 while the target is offline. A \<open>Send\<close> that waits for
  \<open>workerStartMu\<close> loaded a value of \<open>workers\<close> below 16, and at most one caller of
  \<open>Init\<close> (or the revive goroutine) waits for it, after the target went online.
\<close>

lemma sint64_succ:
  fixes w :: "64 word"
  assumes "0 \<le> sint w" "sint w < 17"
  shows "sint (w + 1) = sint w + 1"
  using assms by (simp add: sint_word_ariths signed_take_bit_int_eq_self)

lemma sendLocked_workers_bound:
  assumes "0 \<le> sint (workers h)" and "sint n < 16"
  shows "muWaiters (snd (sendLocked env e n h)) = muWaiters h"
    and "status (snd (sendLocked env e n h)) = status h"
    and "logCh h \<noteq> None \<Longrightarrow> logCh (snd (sendLocked env e n h)) \<noteq> None"
    and "0 \<le> sint (workers (snd (sendLocked env e n h)))"
    and "sint (workers (snd (sendLocked env e n h))) \<le> max (sint (workers h)) 16"
proof -
  have s: "workers h = n \<Longrightarrow> sint (n + 1) = sint n + 1"
    using assms by (intro sint64_succ) auto
  show "muWaiters (snd (sendLocked env e n h)) = muWaiters h"
    by (simp add: sendLocked_def Let_def split: option.splits offer.splits)
  show "status (snd (sendLocked env e n h)) = status h"
    by (simp add: sendLocked_def Let_def split: option.splits offer.splits)
  show "logCh h \<noteq> None \<Longrightarrow> logCh (snd (sendLocked env e n h)) \<noteq> None"
    by (auto simp: sendLocked_def Let_def split: option.splits offer.splits)
  show "0 \<le> sint (workers (snd (sendLocked env e n h)))"
    using assms s by (auto simp: sendLocked_def Let_def split: option.splits offer.splits)
  show "sint (workers (snd (sendLocked env e n h))) \<le> max (sint (workers h)) 16"
    using assms s by (auto simp: sendLocked_def Let_def split: option.splits offer.splits)
qed

lemma step_workers_bound:
  assumes "0 \<le> sint (workers h)" and "logCh h \<noteq> None"
    and "\<forall>e n. WaitingSend e n \<in> set (muWaiters h) \<longrightarrow> sint n < 16"
    and "count_list (muWaiters h) WaitingInit \<le> 1"
    and "status h = statusOffline \<longrightarrow> count_list (muWaiters h) WaitingInit = 0"
    and "sint (workers h) + int (count_list (muWaiters h) WaitingInit) \<le>
           (if status h = statusOffline then 16 else 17)"
  shows "0 \<le> sint (workers (step x h a)) \<and> logCh (step x h a) \<noteq> None \<and>
         (\<forall>e n. WaitingSend e n \<in> set (muWaiters (step x h a)) \<longrightarrow> sint n < 16) \<and>
         count_list (muWaiters (step x h a)) WaitingInit \<le> 1 \<and>
         (status (step x h a) = statusOffline \<longrightarrow>
            count_list (muWaiters (step x h a)) WaitingInit = 0) \<and>
         sint (workers (step x h a)) + int (count_list (muWaiters (step x h a)) WaitingInit) \<le>
           (if status (step x h a) = statusOffline then 16 else 17)"
proof (cases a)
  case (ActSend entry env)
  show ?thesis
  proof (cases "fst (Send x env entry h) = SendParked")
    case True
    then have p: "sint (workers h) < 16" "\<not> workerStartMu h" "store h = None"
      "status h \<noteq> statusClosed" "IsOnline x (config h) (probe env)"
      and c: "\<exists>c. logCh h = Some c \<and> recvq c = 0 \<and> \<not> length (buf c) < capacity c"
      by (simp_all add: Send_parks_iff maxWorkers_def)
    have eq: "snd (Send x env entry h) = snd (sendLocked env entry (workers h) h)"
      using p c by (auto simp: Send_def chan_offer_def maxWorkers_def Let_def)
    show ?thesis
      using assms ActSend eq sendLocked_workers_bound [OF assms(1) p(1), of env entry]
      by (auto split: if_splits)
  next
    case False
    then have w: "workers (snd (Send x env entry h)) = workers h"
      "status (snd (Send x env entry h)) = status h"
      "logCh (snd (Send x env entry h)) \<noteq> None"
      "muWaiters (snd (Send x env entry h)) = muWaiters h \<or>
       (muWaiters (snd (Send x env entry h)) = muWaiters h @ [WaitingSend entry (workers h)] \<and>
        sint (workers h) < 16)"
      using assms(2)
      by (auto simp: Send_def sendLocked_def chan_offer_def dropEntry_def maxWorkers_def Let_def
          split: option.splits offer.splits if_splits)
    show ?thesis
      using assms ActSend w by auto
  qed
next
  case (ActInit env)
  have "status h = statusOffline \<Longrightarrow> sint (workers h + 1) = sint (workers h) + 1"
    using assms by (intro sint64_succ) (auto split: if_splits)
  then show ?thesis
    using assms ActInit
    by (auto simp: Target_Init_def DoWithContext_def initQueueStore_def initLogChannel_def
        goOnline_def startWorker_def Let_def split: option.splits status.splits if_splits)
next
  case (ActRevive env)
  have "status h = statusOffline \<Longrightarrow> sint (workers h + 1) = sint (workers h) + 1"
    using assms by (intro sint64_succ) (auto split: if_splits)
  then show ?thesis
    using assms ActRevive
    by (auto simp: reviveTick_def goOnline_def startWorker_def Let_def split: if_splits)
next
  case (ActLogger lenv)
  then show ?thesis
    using assms by (simp add: loggerStep_fields)
next
  case ActLoggerStart
  then show ?thesis
    using assms by (auto simp: loggerStart_def split: option.splits)
next
  case ActLoggerPark
  then show ?thesis
    using assms by (auto simp: loggerPark_def split: option.splits)
next
  case (ActAcquire env)
  show ?thesis
  proof (cases "workerStartMu h")
    case True
    with assms ActAcquire show ?thesis by (simp add: muAcquire_def)
  next
    case False
    show ?thesis
    proof (cases "muWaiters h")
      case Nil
      with assms ActAcquire False show ?thesis by (simp add: muAcquire_def)
    next
      case (Cons w ws)
      show ?thesis
      proof (cases w)
        case WaitingInit
        have on: "status h \<noteq> statusOffline"
          using assms(5) Cons WaitingInit by auto
        have c: "count_list ws WaitingInit = 0"
          using assms(4) Cons WaitingInit by simp
        have "sint (workers h) < 17"
          using assms(6) on Cons WaitingInit by simp
        then have "sint (workers h + 1) = sint (workers h) + 1"
          using assms(1) by (intro sint64_succ) auto
        then show ?thesis
          using assms ActAcquire False Cons WaitingInit on c
          by (auto simp: muAcquire_def startWorker_def)
      next
        case (WaitingSend e n)
        have n: "sint n < 16"
          using assms(3) Cons WaitingSend by auto
        let ?h = "h\<lparr>muWaiters := ws\<rparr>"
        have eq: "step x h a = snd (sendLocked env e n ?h)"
          using ActAcquire False Cons WaitingSend by (simp add: muAcquire_def)
        have pre: "0 \<le> sint (workers ?h)" using assms(1) by simp
        have cnt: "count_list ws WaitingInit = count_list (muWaiters h) WaitingInit"
          using Cons WaitingSend by simp
        have mem: "\<forall>e n. WaitingSend e n \<in> set ws \<longrightarrow> sint n < 16"
          using assms(3) Cons by auto
        show ?thesis
          using assms eq cnt mem sendLocked_workers_bound [OF pre n, of env e]
          by (auto split: if_splits)
      qed
    qed
  qed
qed

lemma run_workers_bound:
  assumes "0 \<le> sint (workers h)" and "logCh h \<noteq> None"
    and "\<forall>e n. WaitingSend e n \<in> set (muWaiters h) \<longrightarrow> sint n < 16"
    and "count_list (muWaiters h) WaitingInit \<le> 1"
    and "status h = statusOffline \<longrightarrow> count_list (muWaiters h) WaitingInit = 0"
    and "sint (workers h) + int (count_list (muWaiters h) WaitingInit) \<le>
           (if status h = statusOffline then 16 else 17)"
  shows "0 \<le> sint (workers (run x acts h)) \<and>
         sint (workers (run x acts h)) \<le> (if status (run x acts h) = statusOffline then 16 else 17)"
  using assms
proof (induction acts arbitrary: h)
  case Nil
  then show ?case by (auto simp: run_def split: if_splits)
next
  case (Cons a acts)
  have r: "run x (a # acts) h = run x acts (step x h a)"
    by (simp add: run_def)
  have s: "0 \<le> sint (workers (step x h a)) \<and> logCh (step x h a) \<noteq> None \<and>
         (\<forall>e n. WaitingSend e n \<in> set (muWaiters (step x h a)) \<longrightarrow> sint n < 16) \<and>
         count_list (muWaiters (step x h a)) WaitingInit \<le> 1 \<and>
         (status (step x h a) = statusOffline \<longrightarrow>
            count_list (muWaiters (step x h a)) WaitingInit = 0) \<and>
         sint (workers (step x h a)) + int (count_list (muWaiters (step x h a)) WaitingInit) \<le>
           (if status (step x h a) = statusOffline then 16 else 17)"
    by (rule step_workers_bound [OF Cons.prems])
  show ?case
    unfolding r using s by (intro Cons.IH) simp_all
qed

lemma workers_at_most_17:
  assumes "New cfg = Some h0"
  shows "0 \<le> sint (workers (run x acts h0)) \<and> sint (workers (run x acts h0)) \<le> 17"
proof -
  have "workers h0 = 0" "status h0 = statusOffline" "muWaiters h0 = []" "logCh h0 \<noteq> None"
    using assms by (auto simp: New_def split: if_splits)
  then have "0 \<le> sint (workers (run x acts h0)) \<and>
         sint (workers (run x acts h0)) \<le> (if status (run x acts h0) = statusOffline then 16 else 17)"
    by (intro run_workers_bound) simp_all
  then show ?thesis by (auto split: if_splits)
qed

subsection \<open>Cancel\<close>

text \<open>
  C2, at an input where it fails. On the target with a store, \<open>Cancel\<close> returns and
  leaves the target closed; the next \<open>Send\<close> still hands its entry to \<open>store.Put\<close>,
  because \<open>Send\<close> looks at the store before it looks at the status.
\<close>

theorem Send_after_Cancel_store:
  "Cancel ext0 accepting stored =
     (CancelReturns, stored\<lparr>status := statusClosed, storeCancelled := True, logCh := None\<rparr>, []) \<and>
   Send ext0 (online 3) 7 (stored\<lparr>status := statusClosed, storeCancelled := True, logCh := None\<rparr>) =
     (SendReturns None,
      stored\<lparr>status := statusClosed, storeCancelled := True, logCh := None,
             store := Some [StorePut 7]\<rparr>)"
  by (simp add: stored_state Cancel_def closeAndWait_def readLockHeld_def Send_def online_def)

text \<open>
  What does hold: on a target without a store and without a queue directory, once
  \<open>Cancel\<close> has returned the status is closed after every sequence of steps, and every
  \<open>Send\<close> returns \<open>nil\<close> and leaves the target as it was.
\<close>

lemma drainAll_fields:
  "status (fst (drainAll x ps i es (h, evs))) = status h \<and>
   store (fst (drainAll x ps i es (h, evs))) = store h \<and>
   config (fst (drainAll x ps i es (h, evs))) = config h \<and>
   logCh (fst (drainAll x ps i es (h, evs))) = logCh h"
proof (induction es arbitrary: i h evs)
  case Nil
  show ?case by simp
next
  case (Cons e es)
  let ?lenv = "\<lparr>posts = ps i, loadStatus = (\<lambda>n. statusClosed)\<rparr>"
  obtain h1 evs1 where l: "deliver x ?lenv e h = (h1, evs1)"
    by (metis prod.exhaust)
  have "status h1 = status h" "store h1 = store h" "config h1 = config h" "logCh h1 = logCh h"
    using deliver_fields [of x ?lenv e h] l by simp_all
  with Cons.IH [of "Suc i" h1 "evs @ evs1"] l show ?case by simp
qed

lemma Cancel_returns_closed:
  assumes "Cancel x ps h = (CancelReturns, h', evs)"
  shows "status h' = statusClosed \<and> logCh h' = None \<and> store h' = store h \<and> config h' = config h"
proof -
  let ?h2 = "(if store h \<noteq> None then h\<lparr>status := statusClosed, storeCancelled := True\<rparr>
              else h\<lparr>status := statusClosed\<rparr>)"
  have c2: "Cancel x ps h = closeAndWait x ps ?h2"
    by (simp add: Cancel_def Let_def)
  have free: "\<not> readLockHeld ?h2"
    using assms by (auto simp: c2 closeAndWait_def split: if_splits)
  obtain c where Some: "logCh h = Some c"
    using assms free by (cases "logCh h") (auto simp: c2 closeAndWait_def split: if_splits)
  show ?thesis
  proof (cases "registered h = 0")
    case True
    with assms Some free show ?thesis
      by (auto simp: c2 closeAndWait_def split: if_splits)
  next
    case False
    obtain h3 evs3 where
      d: "drainAll x ps 0 (inHand h @ buf c) (?h2\<lparr>logCh := None, inHand := []\<rparr>, []) = (h3, evs3)"
      by (metis prod.exhaust)
    have f: "status h3 = statusClosed" "store h3 = store h" "config h3 = config h" "logCh h3 = None"
      using drainAll_fields [of x ps 0 "inHand h @ buf c" "?h2\<lparr>logCh := None, inHand := []\<rparr>" "[]"] d
      by (simp_all split: if_splits)
    have "h' = h3\<lparr>workers := workers h3 - of_nat (registered h3),
                   loggers := loggers h3 - registered h3, registered := 0\<rparr>"
      using assms Some False d free by (auto simp: c2 closeAndWait_def split: if_splits)
    with f show ?thesis by simp
  qed
qed

lemma sendLocked_fields:
  "status (snd (sendLocked env e n h)) = status h"
  "store (snd (sendLocked env e n h)) = store h"
  "config (snd (sendLocked env e n h)) = config h"
  by (simp_all add: sendLocked_def Let_def split: option.splits offer.splits)

lemma closed_step:
  assumes "status h = statusClosed" "store h = None" "QueueDir (config h) = []"
  shows "status (step x h a) = statusClosed \<and> store (step x h a) = None \<and>
         QueueDir (config (step x h a)) = []"
  using assms
  by (cases a)
     (auto simp: Send_def Target_Init_def initLogChannel_def reviveTick_def loggerStep_fields
        loggerStart_def loggerPark_def muAcquire_def startWorker_def sendLocked_fields
        split: option.splits list.splits mu_waiter.splits)

lemma closed_run:
  assumes "status h = statusClosed" "store h = None" "QueueDir (config h) = []"
  shows "status (run x acts h) = statusClosed \<and> store (run x acts h) = None \<and>
         QueueDir (config (run x acts h)) = []"
  using assms
proof (induction acts arbitrary: h)
  case Nil
  then show ?case by (simp add: run_def)
next
  case (Cons a acts)
  have "run x (a # acts) h = run x acts (step x h a)"
    by (simp add: run_def)
  with Cons.IH [of "step x h a"] closed_step [OF Cons.prems, of x a]
  show ?case by simp
qed

lemma Send_after_Cancel_channel:
  assumes "store h = None" "QueueDir (config h) = []" "Cancel x ps h = (CancelReturns, h', evs)"
  shows "status (run x acts h') = statusClosed \<and>
         Send x env entry (run x acts h') = (SendReturns None, run x acts h')"
proof -
  have "status h' = statusClosed" "store h' = None" "QueueDir (config h') = []"
    using Cancel_returns_closed [OF assms(3)] assms(1,2) by simp_all
  then have "status (run x acts h') = statusClosed \<and> store (run x acts h') = None"
    using closed_run [of h' x acts] by simp
  then show ?thesis by (simp add: Send_def)
qed

text \<open>
  \<open>Cancel\<close> waits for the workers that have passed \<open>h.wg.Add(1)\<close> only. Called on a
  target that went online and took one entry before its worker ran the prologue, it
  returns with the entry lost and the worker still there; the worker then finds
  \<open>logCh\<close> \<open>nil\<close> and returns.
\<close>

lemma Cancel_before_worker_registered:
  "Cancel ext0 accepting
     (run ext0 [ActInit (online 5000000000), ActSend 2 (online 5000000000)] (the (New cfg_chan))) =
     (CancelReturns,
      \<lparr>totalMessages = 0, failedMessages = 0, status = statusClosed, workers = 1,
       workerStartMu = False, muWaiters = [], lastStarted = 5000000000,
       logCh = None,
       reviveDone = False, reviveRunning = False, store = None, storeCancelled = False,
       initQueueStoreDone = False, config = cfg_chan, loggers = 1, registered = 0, inHand = []\<rparr>,
      [])"
  by (simp add: New_cfg_chan run_def Send_def chan_offer_def Target_Init_def QueueDir_cfg_chan
      initLogChannel_def goOnline_def startWorker_def IsOnline_online now_online Cancel_def
      closeAndWait_def readLockHeld_def)

end
